theory Spec2Isabelle
  imports
    Complex_Main
    "HOL-Library.Char_ord"
    "HOL-Library.List_Lexorder"
    "HOL-Library.Multiset"
    "HOL-Library.Sublist"
begin

section \<open>Python values and the built-ins the application calls\<close>

text \<open>
  The application is a Flask program (\<^verbatim>\<open>src/app.py\<close>). Its request bodies are JSON
  values, its table rows hold a period string and eleven float columns, and its handlers
  answer with a JSON body and an HTTP status code.

  Modelling decisions, valid for the whole theory:
  \<^item> Python \<^verbatim>\<open>str\<close> is \<^typ>\<open>string\<close>, read as ASCII text.
  \<^item> A Python \<^verbatim>\<open>float\<close> is its value, a \<^typ>\<open>rat\<close>, or one of the three non-finite
    values. The results of \<^verbatim>\<open>+\<close>, \<^verbatim>\<open>-\<close>, \<^verbatim>\<open>*\<close> and \<^verbatim>\<open>/\<close> are rounded to the nearest double
    (\<open>round_double\<close>). The conversion of decimal text keeps the value of the decimal, so
    a row holds the number that was written; the column of the program holds the double
    nearest to it, and that double is what the listing and the metrics take when they
    read the column (\<open>column_float\<close>). The sign of zero is not represented.
  \<^item> An exception is a value of \<open>py_exc\<close>; code that may raise returns
    \<open>py_exc + 'a\<close> with \<open>Inl\<close> for the raised exception.
  \<^item> The table is the list of its committed rows in insertion order. The columns
    \<^verbatim>\<open>id\<close>, \<^verbatim>\<open>created_at\<close> and \<^verbatim>\<open>updated_at\<close> are left out: no handler below reads them
    to take a decision.
  \<^item> The texts of the messages contain non-ASCII letters; a message is a constructor
    of \<open>msg\<close> named after its meaning.
\<close>

datatype py_exc = ValueError | KeyError | TypeError | AttributeError | ZeroDivisionError

datatype pyfloat = Finite rat | PosInf | NegInf | NaN

datatype json =
    JNull
  | JBool bool
  | JNum rat
  | JStr string
  | JArr "json list"
  | JObj "(string \<times> json) list"

text \<open>A JSON object read by \<^verbatim>\<open>json.loads\<close> keeps the last binding of a repeated key.\<close>

definition dict_get :: "(string \<times> json) list \<Rightarrow> string \<Rightarrow> json option" where
  "dict_get kvs k = map_of (rev kvs) k"

text \<open>\<^verbatim>\<open>data[k]\<close>: only a dict can be subscripted by a string.\<close>

fun subscript :: "json \<Rightarrow> string \<Rightarrow> py_exc + json" where
  "subscript (JObj kvs) k = (case dict_get kvs k of None \<Rightarrow> Inl KeyError | Some v \<Rightarrow> Inr v)"
| "subscript _ k = Inl TypeError"

text \<open>\<^verbatim>\<open>data.get(k)\<close>: only a dict has the method; a missing key gives \<^verbatim>\<open>None\<close>.\<close>

fun dict_get_method :: "json \<Rightarrow> string \<Rightarrow> py_exc + json" where
  "dict_get_method (JObj kvs) k = (case dict_get kvs k of None \<Rightarrow> Inr JNull | Some v \<Rightarrow> Inr v)"
| "dict_get_method _ k = Inl AttributeError"

text \<open>Truth value of a JSON value, as \<^verbatim>\<open>not x\<close> tests it.\<close>

fun truthy :: "json \<Rightarrow> bool" where
  "truthy JNull = False"
| "truthy (JBool b) = b"
| "truthy (JNum r) = (r \<noteq> 0)"
| "truthy (JStr s) = (s \<noteq> [])"
| "truthy (JArr xs) = (xs \<noteq> [])"
| "truthy (JObj kvs) = (kvs \<noteq> [])"

subsection \<open>String methods\<close>

definition is_digit :: "char \<Rightarrow> bool" where
  "is_digit c = (c \<in> set ''0123456789'')"

definition digit_char :: "nat \<Rightarrow> char" where
  "digit_char n = ''0123456789'' ! n"

definition digit_val :: "char \<Rightarrow> nat" where
  "digit_val c = of_char c - 48"

text \<open>Whitespace of \<^verbatim>\<open>str.strip()\<close> (ASCII part of \<^verbatim>\<open>str.isspace\<close>).\<close>

definition py_isspace :: "char \<Rightarrow> bool" where
  "py_isspace c = (c \<in> set [CHR 0x09, CHR 0x0A, CHR 0x0B, CHR 0x0C, CHR 0x0D,
                             CHR 0x1C, CHR 0x1D, CHR 0x1E, CHR 0x1F, CHR 0x20])"

text \<open>Whitespace skipped by \<^verbatim>\<open>float()\<close> around its argument (C's \<^verbatim>\<open>isspace\<close>).\<close>

definition c_isspace :: "char \<Rightarrow> bool" where
  "c_isspace c = (c \<in> set [CHR 0x09, CHR 0x0A, CHR 0x0B, CHR 0x0C, CHR 0x0D, CHR 0x20])"

definition strip_with :: "(char \<Rightarrow> bool) \<Rightarrow> string \<Rightarrow> string" where
  "strip_with sp s = rev (dropWhile sp (rev (dropWhile sp s)))"

definition py_strip :: "string \<Rightarrow> string" where
  "py_strip s = strip_with py_isspace s"

text \<open>\<^verbatim>\<open>s.split(sep)\<close> for a one-character separator: never an empty list.\<close>

fun py_split :: "char \<Rightarrow> string \<Rightarrow> string list" where
  "py_split sep [] = [[]]"
| "py_split sep (c # cs) =
     (if c = sep then [] # py_split sep cs
      else (case py_split sep cs of
              [] \<Rightarrow> [[c]]
            | w # ws \<Rightarrow> (c # w) # ws))"

text \<open>\<^verbatim>\<open>s.zfill(width)\<close>: zeros go after a leading sign.\<close>

definition zfill :: "nat \<Rightarrow> string \<Rightarrow> string" where
  "zfill width s =
     (if width \<le> length s then s
      else (case s of
              [] \<Rightarrow> replicate width (CHR ''0'')
            | c # cs \<Rightarrow>
                if c = CHR ''+'' \<or> c = CHR ''-''
                then c # replicate (width - length s) (CHR ''0'') @ cs
                else replicate (width - length s) (CHR ''0'') @ s))"

text \<open>\<^verbatim>\<open>s.replace(old, new)\<close>: every non-overlapping occurrence, left to right.\<close>

function py_replace :: "string \<Rightarrow> string \<Rightarrow> string \<Rightarrow> string" where
  "py_replace old new [] = (if old = [] then new else [])"
| "py_replace old new (c # cs) =
     (if old = [] then new @ c # py_replace old new cs
      else if prefix old (c # cs) then new @ py_replace old new (drop (length old) (c # cs))
      else c # py_replace old new cs)"
  by pat_completeness auto
termination
  by (relation "measure (\<lambda>(old, new, s). length s)") auto

subsection \<open>Float arithmetic\<close>

text \<open>Rounding a rational to the nearest integer, a tie going to the even one.\<close>

definition round_half_even :: "rat \<Rightarrow> int" where
  "round_half_even q =
     (let (a, b) = quotient_of q; f = a div b; r = a mod b
      in if 2 * r < b then f
         else if b < 2 * r then f + 1
         else if even f then f else f + 1)"

text \<open>
  The double nearest to a rational, as IEEE 754 rounds by default. \<open>pow2 k\<close> is the
  power of two of exponent \<open>k\<close>, and \<open>ilog2 a\<close> is the exponent \<open>e\<close> of a positive \<open>a\<close>, the
  one with \<open>pow2 e \<le> a < pow2 (e + 1)\<close>, found from the bit lengths of the numerator and
  the denominator. A double has 53 significant bits, so its last bit weighs
  \<open>pow2 (e - 52)\<close>, and never less than \<open>pow2 (- 1074)\<close> (the subnormal numbers). The
  value is rounded to a multiple of that weight, a tie going to the even multiple; a
  result of \<open>pow2 1024\<close> or more is an infinity.
\<close>

function bit_length :: "int \<Rightarrow> nat" where
  "bit_length n = (if n \<le> 0 then 0 else Suc (bit_length (n div 2)))"
  by pat_completeness auto
termination
  by (relation "measure nat") auto

declare bit_length.simps [simp del]

definition pow2 :: "int \<Rightarrow> rat" where
  "pow2 k = (if 0 \<le> k then 2 ^ nat k else 1 / 2 ^ nat (- k))"

definition ilog2 :: "rat \<Rightarrow> int" where
  "ilog2 a =
     (let (p, q) = quotient_of a;
          k = int (bit_length p) - int (bit_length q)
      in if pow2 k \<le> a then k else k - 1)"

definition round_double :: "rat \<Rightarrow> pyfloat" where
  "round_double r =
     (if r = 0 then Finite 0
      else
        (let a = \<bar>r\<bar>;
             q = max (ilog2 a - 52) (- 1074);
             v = of_int (round_half_even (a / pow2 q)) * pow2 q
         in if pow2 1024 \<le> v then (if r < 0 then NegInf else PosInf)
            else Finite (if r < 0 then - v else v)))"

fun pf_neg :: "pyfloat \<Rightarrow> pyfloat" where
  "pf_neg (Finite a) = Finite (- a)"
| "pf_neg PosInf = NegInf"
| "pf_neg NegInf = PosInf"
| "pf_neg NaN = NaN"

fun pf_add :: "pyfloat \<Rightarrow> pyfloat \<Rightarrow> pyfloat" where
  "pf_add (Finite a) (Finite b) = round_double (a + b)"
| "pf_add NaN _ = NaN"
| "pf_add _ NaN = NaN"
| "pf_add PosInf NegInf = NaN"
| "pf_add NegInf PosInf = NaN"
| "pf_add PosInf _ = PosInf"
| "pf_add NegInf _ = NegInf"
| "pf_add _ PosInf = PosInf"
| "pf_add _ NegInf = NegInf"

definition pf_sub :: "pyfloat \<Rightarrow> pyfloat \<Rightarrow> pyfloat" where
  "pf_sub a b = pf_add a (pf_neg b)"

text \<open>Sign of a non-NaN value: \<open>-1\<close>, \<open>0\<close> or \<open>1\<close>.\<close>

fun pf_sgn :: "pyfloat \<Rightarrow> int" where
  "pf_sgn (Finite a) = (if a < 0 then - 1 else if a = 0 then 0 else 1)"
| "pf_sgn PosInf = 1"
| "pf_sgn NegInf = - 1"
| "pf_sgn NaN = 0"

fun pf_mul :: "pyfloat \<Rightarrow> pyfloat \<Rightarrow> pyfloat" where
  "pf_mul (Finite a) (Finite b) = round_double (a * b)"
| "pf_mul NaN _ = NaN"
| "pf_mul _ NaN = NaN"
| "pf_mul a b =
     (if pf_sgn a * pf_sgn b = 0 then NaN
      else if pf_sgn a * pf_sgn b < 0 then NegInf else PosInf)"

text \<open>\<^verbatim>\<open>a / b\<close> on floats raises \<^verbatim>\<open>ZeroDivisionError\<close> when the divisor is zero.\<close>

fun pf_div :: "pyfloat \<Rightarrow> pyfloat \<Rightarrow> py_exc + pyfloat" where
  "pf_div a (Finite b) =
     (if b = 0 then Inl ZeroDivisionError
      else (case a of
              Finite x \<Rightarrow> Inr (round_double (x / b))
            | NaN \<Rightarrow> Inr NaN
            | _ \<Rightarrow> Inr (if pf_sgn a * pf_sgn (Finite b) < 0 then NegInf else PosInf)))"
| "pf_div NaN _ = Inr NaN"
| "pf_div _ NaN = Inr NaN"
| "pf_div (Finite a) _ = Inr (Finite 0)"
| "pf_div _ _ = Inr NaN"

text \<open>\<^verbatim>\<open>x > 0\<close> and \<^verbatim>\<open>x != 0\<close>; every comparison with NaN but \<^verbatim>\<open>!=\<close> is false.\<close>

fun pf_positive :: "pyfloat \<Rightarrow> bool" where
  "pf_positive (Finite a) = (0 < a)"
| "pf_positive PosInf = True"
| "pf_positive _ = False"

fun pf_nonzero :: "pyfloat \<Rightarrow> bool" where
  "pf_nonzero (Finite a) = (a \<noteq> 0)"
| "pf_nonzero _ = True"

subsection \<open>Formatting a float with two decimals\<close>

text \<open>
  The format specifications \<^verbatim>\<open>:.2f\<close>, \<^verbatim>\<open>:+.2f\<close> and \<^verbatim>\<open>:,.2f\<close> round the exact value
  to two decimals, a tie going to the even digit, print a minus sign for every negative
  value (also one that rounds to zero), a plus sign for the others when \<^verbatim>\<open>+\<close> is
  given, and group the integer digits in threes when \<^verbatim>\<open>,\<close> is given.
\<close>

fun dec :: "nat \<Rightarrow> string" where
  "dec n = (if n < 10 then [digit_char n] else dec (n div 10) @ [digit_char (n mod 10)])"

declare dec.simps [simp del]

fun group3 :: "string \<Rightarrow> string" where
  "group3 ds =
     (if length ds \<le> 3 then ds
      else group3 (take (length ds - 3) ds) @ CHR '','' # drop (length ds - 3) ds)"

declare group3.simps [simp del]

definition two_digits :: "nat \<Rightarrow> string" where
  "two_digits n = [digit_char (n div 10), digit_char (n mod 10)]"

definition format_f2 :: "bool \<Rightarrow> bool \<Rightarrow> pyfloat \<Rightarrow> string" where
  "format_f2 with_sign with_commas x =
     (case x of
        Finite r \<Rightarrow>
          (let cents = nat (round_half_even (\<bar>r\<bar> * 100));
               whole = dec (cents div 100)
           in (if r < 0 then ''-'' else if with_sign then ''+'' else [])
              @ (if with_commas then group3 whole else whole)
              @ ''.'' @ two_digits (cents mod 100))
      | PosInf \<Rightarrow> (if with_sign then ''+'' else []) @ ''inf''
      | NegInf \<Rightarrow> ''-inf''
      | NaN \<Rightarrow> (if with_sign then ''+'' else []) @ ''nan'')"

text \<open>
  \<^verbatim>\<open>.replace(',', '_').replace('.', ',').replace('_', '.')\<close>, which every handler applies
  to a formatted amount.
\<close>

definition swap_separators :: "string \<Rightarrow> string" where
  "swap_separators s = py_replace ''_'' ''.'' (py_replace ''.'' '','' (py_replace '','' ''_'' s))"

subsection \<open>\<^verbatim>\<open>float()\<close>\<close>

text \<open>
  \<^verbatim>\<open>float(s)\<close> on text: surrounding whitespace is skipped; an underscore may stand
  between two digits; then an optional sign and either \<^verbatim>\<open>inf\<close>, \<^verbatim>\<open>infinity\<close>, \<^verbatim>\<open>nan\<close> in
  any case, or digits with an optional point and an optional exponent, at least one digit
  in the mantissa. Anything else raises \<^verbatim>\<open>ValueError\<close>.
\<close>

fun underscores_ok :: "char \<Rightarrow> string \<Rightarrow> bool" where
  "underscores_ok prev [] = (prev \<noteq> CHR ''_'')"
| "underscores_ok prev (c # cs) =
     ((if c = CHR ''_'' then is_digit prev
       else if prev = CHR ''_'' then is_digit c else True)
      \<and> underscores_ok c cs)"

definition nat_of_digits :: "string \<Rightarrow> nat" where
  "nat_of_digits ds = foldl (\<lambda>a c. 10 * a + digit_val c) 0 ds"

text \<open>Case-insensitive comparison with a literal given in lower and in upper case.\<close>

definition ci_eq :: "string \<Rightarrow> string \<Rightarrow> string \<Rightarrow> bool" where
  "ci_eq s lower upper = list_all2 (\<lambda>c (l, u). c = l \<or> c = u) s (zip lower upper)"

text \<open>The exponent part: nothing, or \<^verbatim>\<open>e\<close>, an optional sign and at least one digit.\<close>

definition exponent_part :: "string \<Rightarrow> int option" where
  "exponent_part r =
     (case r of
        [] \<Rightarrow> Some 0
      | c # r1 \<Rightarrow>
          if c = CHR ''e'' \<or> c = CHR ''E''
          then (let (negative, ds) =
                      (case r1 of
                         [] \<Rightarrow> (False, [])
                       | d # r2 \<Rightarrow>
                           if d = CHR ''-'' then (True, r2)
                           else if d = CHR ''+'' then (False, r2)
                           else (False, r1))
                in if ds \<noteq> [] \<and> list_all is_digit ds
                   then Some (if negative then - int (nat_of_digits ds) else int (nat_of_digits ds))
                   else None)
          else None)"

definition scale10 :: "rat \<Rightarrow> int \<Rightarrow> rat" where
  "scale10 x k = (if 0 \<le> k then x * 10 ^ nat k else x / 10 ^ nat (- k))"

definition parse_float :: "string \<Rightarrow> py_exc + pyfloat" where
  "parse_float t =
     (let (negative, r) =
            (case t of
               [] \<Rightarrow> (False, [])
             | c # cs \<Rightarrow>
                 if c = CHR ''-'' then (True, cs)
                 else if c = CHR ''+'' then (False, cs)
                 else (False, t))
      in if ci_eq r ''inf'' ''INF'' \<or> ci_eq r ''infinity'' ''INFINITY''
         then Inr (if negative then NegInf else PosInf)
         else if ci_eq r ''nan'' ''NAN'' then Inr NaN
         else
           (let ip = takeWhile is_digit r;
                r1 = dropWhile is_digit r;
                (fp, r2) =
                  (case r1 of
                     [] \<Rightarrow> ([], [])
                   | c # cs \<Rightarrow>
                       if c = CHR ''.'' then (takeWhile is_digit cs, dropWhile is_digit cs)
                       else ([], r1))
            in if ip = [] \<and> fp = [] then Inl ValueError
               else (case exponent_part r2 of
                       None \<Rightarrow> Inl ValueError
                     | Some e \<Rightarrow>
                         Inr (Finite
                           ((if negative then - 1 else 1)
                            * scale10 (of_nat (nat_of_digits (ip @ fp))) (e - int (length fp)))))))"

definition py_float_str :: "string \<Rightarrow> py_exc + pyfloat" where
  "py_float_str s =
     (let t = strip_with c_isspace s
      in if CHR ''_'' \<in> set t
         then (if underscores_ok (CHR 0x00) t
               then parse_float (filter (\<lambda>c. c \<noteq> CHR ''_'') t)
               else Inl ValueError)
         else parse_float t)"

text \<open>
  \<^verbatim>\<open>float(v)\<close> on a JSON value: a number converts, a boolean is 1.0 or 0.0, text is
  parsed, and \<^verbatim>\<open>None\<close>, a list or a dict raise \<^verbatim>\<open>TypeError\<close>.
\<close>

fun py_float :: "json \<Rightarrow> py_exc + pyfloat" where
  "py_float (JNum r) = Inr (Finite r)"
| "py_float (JBool b) = Inr (Finite (if b then 1 else 0))"
| "py_float (JStr s) = py_float_str s"
| "py_float _ = Inl TypeError"

section \<open>The table \<^verbatim>\<open>FinancialData\<close>\<close>

record FinancialData =
  user_id :: nat
  reference_date :: string
  cash_balance :: pyfloat
  bank_balance :: pyfloat
  accounts_receivable :: pyfloat
  inventory_balance :: pyfloat
  other_credits :: pyfloat
  fixed_assets :: pyfloat
  investments :: pyfloat
  accounts_payable :: pyfloat
  loans_financing :: pyfloat
  installments_payable :: pyfloat
  total_sales :: pyfloat

type_synonym db = "FinancialData list"

text \<open>
  The value of a float column where the program reads it, as in
  \<^verbatim>\<open>float(item.cash_balance)\<close> (lines 448--457 and 468) and \<^verbatim>\<open>float(value)\<close> (line 228):
  the double nearest to the number the row holds.
\<close>

fun column_float :: "pyfloat \<Rightarrow> pyfloat" where
  "column_float (Finite r) = round_double r"
| "column_float x = x"

text \<open>
  \<^verbatim>\<open>FinancialData.normalize_date\<close> (lines 48--56): a failed unpacking of the split is
  swallowed by the bare \<^verbatim>\<open>except\<close> and the argument comes back unchanged.
\<close>

definition normalize_date :: "string \<Rightarrow> string" where
  "normalize_date date_str =
     (case py_split (CHR ''/'') (py_strip date_str) of
        [month_part, year_part] \<Rightarrow> zfill 2 month_part @ ''/'' @ year_part
      | _ \<Rightarrow> date_str)"

text \<open>The constructor (lines 58--62) normalises the period before the row is built.\<close>

definition new_FinancialData ::
  "nat \<Rightarrow> string \<Rightarrow> pyfloat list \<Rightarrow> FinancialData option" where
  "new_FinancialData uid ref amounts =
     (case amounts of
        [a1, a2, a3, a4, a5, a6, a7, a8, a9, a10, a11] \<Rightarrow>
          Some \<lparr>user_id = uid, reference_date = normalize_date ref,
                cash_balance = a1, bank_balance = a2, accounts_receivable = a3,
                inventory_balance = a4, other_credits = a5, fixed_assets = a6,
                investments = a7, accounts_payable = a8, loans_financing = a9,
                installments_payable = a10, total_sales = a11\<rparr>
      | _ \<Rightarrow> None)"

text \<open>The monetary keys of a request body, in the order the handlers read them.\<close>

definition money_fields :: "string list" where
  "money_fields =
     [''cash_balance'', ''bank_balance'', ''accounts_receivable'', ''inventory_balance'',
      ''other_credits'', ''fixed_assets'', ''investments'', ''accounts_payable'',
      ''loans_financing'', ''installments_payable'', ''total_sales'']"

text \<open>
  \<^verbatim>\<open>query.filter_by(user_id=..., reference_date=...).first()\<close>: the first row of the user
  with exactly this period text.
\<close>

definition matches :: "nat \<Rightarrow> string \<Rightarrow> FinancialData \<Rightarrow> bool" where
  "matches uid ref row = (user_id row = uid \<and> reference_date row = ref)"

definition query_first :: "nat \<Rightarrow> string \<Rightarrow> db \<Rightarrow> FinancialData option" where
  "query_first uid ref rows = find (matches uid ref) rows"

text \<open>Evaluating a list of fallible expressions in order: the first exception wins.\<close>

fun sequence_exc :: "(py_exc + 'a) list \<Rightarrow> py_exc + 'a list" where
  "sequence_exc [] = Inr []"
| "sequence_exc (x # xs) =
     (case x of
        Inl e \<Rightarrow> Inl e
      | Inr v \<Rightarrow> (case sequence_exc xs of Inl e \<Rightarrow> Inl e | Inr vs \<Rightarrow> Inr (v # vs)))"

section \<open>Responses\<close>

datatype status = StatusSuccess | StatusError

text \<open>
  The messages of the handlers, by line of \<^verbatim>\<open>src/app.py\<close>:
  \<open>InvalidDateFormat\<close> 134, \<open>AlreadyRegistered\<close> 147, \<open>Added\<close> 188,
  \<open>MissingField\<close> 195, \<open>NoData\<close> 345, \<open>NoReferenceDate\<close> 352, \<open>NotFound\<close> 364 and
  413, \<open>ConversionError\<close> 383, \<open>Updated\<close> 390, \<open>Deleted\<close> 420, \<open>ResultsFailed\<close> 489;
  \<open>ExcText e\<close> is \<^verbatim>\<open>str(e)\<close> of the caught exception.
\<close>

datatype msg =
    InvalidDateFormat
  | AlreadyRegistered
  | Added
  | MissingField py_exc
  | NoData
  | NoReferenceDate
  | NotFound
  | ConversionError py_exc
  | Updated
  | Deleted
  | ResultsFailed
  | ExcText py_exc

record result_row =
  r_month :: string
  r_equity :: string
  r_equity_raw :: pyfloat
  r_variation :: string
  r_revenue_result :: string

record formatted_row =
  f_user_id :: nat
  f_reference_date :: string
  f_amounts :: "string list"

datatype body =
    Message status msg
  | ResultData status "result_row list"
  | Months "string list"
  | Rows "formatted_row list"

type_synonym response = "body \<times> nat"

section \<open>Creating a snapshot: \<^verbatim>\<open>add_financial_data\<close> (lines 110--204)\<close>

text \<open>Lines 120--122: strip, split at the slash, unpack into two names, pad the month.\<close>

definition normalize_reference_date :: "string \<Rightarrow> py_exc + string" where
  "normalize_reference_date raw =
     (case py_split (CHR ''/'') (py_strip raw) of
        [month_part, year_part] \<Rightarrow> Inr (zfill 2 month_part @ ''/'' @ year_part)
      | _ \<Rightarrow> Inl ValueError)"

text \<open>
  Line 126: \<^verbatim>\<open>re.match(r'^(0[1-9]|1[0-2])/20[0-9]{2}$', s)\<close>. The pattern consumes
  exactly seven characters; \<^verbatim>\<open>$\<close> also matches just before a final newline.
  \<open>month_two\<close> is the two-character month \<^verbatim>\<open>0[1-9]|1[0-2]\<close>.
\<close>

definition month_two :: "char \<Rightarrow> char \<Rightarrow> bool" where
  "month_two m1 m2 =
     ((m1 = CHR ''0'' \<and> m2 \<in> set ''123456789'') \<or> (m1 = CHR ''1'' \<and> m2 \<in> set ''012''))"

fun period_pattern :: "string \<Rightarrow> bool" where
  "period_pattern [m1, m2, sl, y1, y2, y3, y4] =
     (month_two m1 m2
      \<and> sl = CHR ''/'' \<and> y1 = CHR ''2'' \<and> y2 = CHR ''0'' \<and> is_digit y3 \<and> is_digit y4)"
| "period_pattern _ = False"

definition re_match_period :: "string \<Rightarrow> bool" where
  "re_match_period s =
     (period_pattern s \<or> (s \<noteq> [] \<and> last s = CHR 0x0A \<and> period_pattern (butlast s)))"

text \<open>
  Line 129: \<^verbatim>\<open>datetime.strptime(s, '%m/%Y')\<close>. The directive \<^verbatim>\<open>%m\<close> reads
  \<^verbatim>\<open>1[0-2]|0[1-9]|[1-9]\<close>, \<^verbatim>\<open>%Y\<close> reads four digits, the whole text must be consumed and
  the year must be at least 1. The result is the pair (year, month).
\<close>

fun strptime_month_year :: "string \<Rightarrow> py_exc + nat \<times> nat" where
  "strptime_month_year [m1, m2, sl, y1, y2, y3, y4] =
     (if month_two m1 m2 \<and> sl = CHR ''/'' \<and> list_all is_digit [y1, y2, y3, y4]
         \<and> 0 < nat_of_digits [y1, y2, y3, y4]
      then Inr (nat_of_digits [y1, y2, y3, y4], nat_of_digits [m1, m2])
      else Inl ValueError)"
| "strptime_month_year [m1, sl, y1, y2, y3, y4] =
     (if m1 \<in> set ''123456789'' \<and> sl = CHR ''/'' \<and> list_all is_digit [y1, y2, y3, y4]
         \<and> 0 < nat_of_digits [y1, y2, y3, y4]
      then Inr (nat_of_digits [y1, y2, y3, y4], nat_of_digits [m1])
      else Inl ValueError)"
| "strptime_month_year _ = Inl ValueError"

text \<open>Lines 125--129 together: the validation of the normalised period.\<close>

definition validate_reference_date :: "string \<Rightarrow> py_exc + unit" where
  "validate_reference_date s =
     (if \<not> re_match_period s then Inl ValueError
      else (case strptime_month_year s of Inl e \<Rightarrow> Inl e | Inr _ \<Rightarrow> Inr ()))"

text \<open>
  \<^verbatim>\<open>process_currency\<close> (lines 151--159). The body of its \<^verbatim>\<open>try\<close> calls \<^verbatim>\<open>value.replace\<close>,
  a method only text has; the handler of \<^verbatim>\<open>ValueError\<close> and \<^verbatim>\<open>AttributeError\<close> returns
  0.0.
\<close>

definition process_currency_try :: "json \<Rightarrow> py_exc + pyfloat" where
  "process_currency_try v =
     (case v of
        JStr s \<Rightarrow>
          py_float_str
            (py_strip (py_replace '','' ''.'' (py_replace ''.'' [] (py_replace ''R$'' [] s))))
      | _ \<Rightarrow> Inl AttributeError)"

definition process_currency :: "json \<Rightarrow> py_exc + pyfloat" where
  "process_currency v =
     (case process_currency_try v of
        Inr processed \<Rightarrow> Inr processed
      | Inl e \<Rightarrow> if e = ValueError \<or> e = AttributeError then Inr (Finite 0) else Inl e)"

text \<open>
  Lines 163--177: the arguments of the constructor are evaluated in order;
  \<^verbatim>\<open>data[k]\<close> raises \<^verbatim>\<open>KeyError\<close> for a missing key.
\<close>

definition currency_field :: "json \<Rightarrow> string \<Rightarrow> py_exc + pyfloat" where
  "currency_field data k =
     (case subscript data k of Inl e \<Rightarrow> Inl e | Inr v \<Rightarrow> process_currency v)"

definition add_financial_data :: "nat \<Rightarrow> json \<Rightarrow> db \<Rightarrow> response \<times> db" where
  "add_financial_data current_user data rows =
     (case subscript data ''reference_date'' of
        Inl e \<Rightarrow> ((Message StatusError (ExcText e), 400), rows)
      | Inr v \<Rightarrow>
         (case v of
            JStr raw \<Rightarrow>
              (case normalize_reference_date raw of
                 Inl e \<Rightarrow> ((Message StatusError InvalidDateFormat, 400), rows)
               | Inr ref \<Rightarrow>
                  (case validate_reference_date ref of
                     Inl e \<Rightarrow> ((Message StatusError InvalidDateFormat, 400), rows)
                   | Inr _ \<Rightarrow>
                      (case query_first current_user ref rows of
                         Some existing_data \<Rightarrow> ((Message StatusError AlreadyRegistered, 400), rows)
                       | None \<Rightarrow>
                          (case sequence_exc (map (currency_field data) money_fields) of
                             Inl e \<Rightarrow>
                               if e = KeyError
                               then ((Message StatusError (MissingField e), 400), rows)
                               else ((Message StatusError (ExcText e), 400), rows)
                           | Inr amounts \<Rightarrow>
                              (case new_FinancialData current_user ref amounts of
                                 None \<Rightarrow> ((Message StatusError (ExcText TypeError), 400), rows)
                               | Some financial_data \<Rightarrow>
                                   ((Message StatusSuccess Added, 200),
                                    rows @ [financial_data]))))))
          | _ \<Rightarrow> ((Message StatusError (ExcText AttributeError), 400), rows)))"

section \<open>Listing: \<^verbatim>\<open>list_financial_data\<close> and \<^verbatim>\<open>get_available_months\<close>\<close>

text \<open>
  \<^verbatim>\<open>format_currency\<close> (lines 226--230), applied to a float: \<^verbatim>\<open>float(value)\<close> raises
  nothing. The listing applies it to the value of each float column.
\<close>

definition format_currency :: "pyfloat \<Rightarrow> string" where
  "format_currency v = swap_separators (''R$ '' @ format_f2 False True v)"

definition amounts_of :: "FinancialData \<Rightarrow> pyfloat list" where
  "amounts_of item =
     [cash_balance item, bank_balance item, accounts_receivable item, inventory_balance item,
      other_credits item, fixed_assets item, investments item, accounts_payable item,
      loans_financing item, installments_payable item, total_sales item]"

definition of_user :: "nat \<Rightarrow> db \<Rightarrow> db" where
  "of_user uid rows = filter (\<lambda>row. user_id row = uid) rows"

definition list_financial_data :: "nat \<Rightarrow> db \<Rightarrow> response" where
  "list_financial_data current_user rows =
     (Rows (map (\<lambda>item. \<lparr>f_user_id = user_id item, f_reference_date = reference_date item,
                           f_amounts =
                             map (\<lambda>v. format_currency (column_float v)) (amounts_of item)\<rparr>)
                (of_user current_user rows)), 200)"


section \<open>Updating and deleting (lines 337--427)\<close>

definition float_field :: "json \<Rightarrow> string \<Rightarrow> py_exc + pyfloat" where
  "float_field data k =
     (case subscript data k of Inl e \<Rightarrow> Inl e | Inr v \<Rightarrow> py_float v)"

text \<open>
  The period of an update is whatever JSON value the body holds. Text is compared as it
  is. A number or a boolean is compared after conversion to text, which has no slash;
  the rows hold periods with a slash, so nothing is found. A list or a dict cannot be
  bound to the query, and the driver raises.
\<close>

fun query_first_json :: "nat \<Rightarrow> json \<Rightarrow> db \<Rightarrow> py_exc + FinancialData option" where
  "query_first_json uid (JStr s) rows = Inr (query_first uid s rows)"
| "query_first_json uid (JArr xs) rows = Inl TypeError"
| "query_first_json uid (JObj kvs) rows = Inl TypeError"
| "query_first_json uid _ rows = Inr None"

fun replace_first :: "('a \<Rightarrow> bool) \<Rightarrow> 'a \<Rightarrow> 'a list \<Rightarrow> 'a list" where
  "replace_first p y [] = []"
| "replace_first p y (x # xs) = (if p x then y # xs else x # replace_first p y xs)"

fun remove_first :: "('a \<Rightarrow> bool) \<Rightarrow> 'a list \<Rightarrow> 'a list" where
  "remove_first p [] = []"
| "remove_first p (x # xs) = (if p x then xs else x # remove_first p xs)"

definition assign_amounts :: "FinancialData \<Rightarrow> pyfloat list \<Rightarrow> FinancialData option" where
  "assign_amounts financial_data amounts =
     (case amounts of
        [a1, a2, a3, a4, a5, a6, a7, a8, a9, a10, a11] \<Rightarrow>
          Some (financial_data
                 \<lparr>cash_balance := a1, bank_balance := a2, accounts_receivable := a3,
                  inventory_balance := a4, other_credits := a5, fixed_assets := a6,
                  investments := a7, accounts_payable := a8, loans_financing := a9,
                  installments_payable := a10, total_sales := a11\<rparr>)
      | _ \<Rightarrow> None)"

text \<open>
  \<^verbatim>\<open>update_financial_data\<close>. The assignments of lines 369--379 change the row object
  only; the table changes at \<^verbatim>\<open>commit\<close> (line 386), which the error paths never
  reach. \<^verbatim>\<open>ValueError\<close> and \<^verbatim>\<open>KeyError\<close> are answered with 400 (line 380), every other
  exception with 500 by the outer handler (line 393).
\<close>

definition update_financial_data :: "nat \<Rightarrow> json \<Rightarrow> db \<Rightarrow> response \<times> db" where
  "update_financial_data current_user data rows =
     (if \<not> truthy data then ((Message StatusError NoData, 400), rows)
      else
        (case dict_get_method data ''reference_date'' of
           Inl e \<Rightarrow> ((Message StatusError (ExcText e), 500), rows)
         | Inr ref \<Rightarrow>
            if \<not> truthy ref then ((Message StatusError NoReferenceDate, 400), rows)
            else
              (case query_first_json current_user ref rows of
                 Inl e \<Rightarrow> ((Message StatusError (ExcText e), 500), rows)
               | Inr None \<Rightarrow> ((Message StatusError NotFound, 404), rows)
               | Inr (Some financial_data) \<Rightarrow>
                  (case sequence_exc (map (float_field data) money_fields) of
                     Inl e \<Rightarrow>
                       if e = ValueError \<or> e = KeyError
                       then ((Message StatusError (ConversionError e), 400), rows)
                       else ((Message StatusError (ExcText e), 500), rows)
                   | Inr amounts \<Rightarrow>
                      (case assign_amounts financial_data amounts of
                         None \<Rightarrow> ((Message StatusError (ExcText TypeError), 500), rows)
                       | Some updated \<Rightarrow>
                           ((Message StatusSuccess Updated, 200),
                            replace_first
                              (matches current_user (reference_date financial_data))
                              updated rows))))))"

definition delete_financial_data :: "nat \<Rightarrow> string \<Rightarrow> db \<Rightarrow> response \<times> db" where
  "delete_financial_data current_user ref rows =
     (case query_first current_user ref rows of
        None \<Rightarrow> ((Message StatusError NotFound, 404), rows)
      | Some financial_data \<Rightarrow>
          ((Message StatusSuccess Deleted, 200), remove_first (matches current_user ref) rows))"

section \<open>The metrics: \<^verbatim>\<open>get_financial_results\<close> (lines 429--490)\<close>

text \<open>Lines 447--458.\<close>

definition equity_of :: "FinancialData \<Rightarrow> pyfloat" where
  "equity_of item =
     pf_sub (pf_sub (pf_sub
       (pf_add (pf_add (pf_add (pf_add (pf_add (pf_add
          (column_float (cash_balance item)) (column_float (bank_balance item)))
          (column_float (accounts_receivable item)))
          (column_float (inventory_balance item))) (column_float (other_credits item)))
          (column_float (fixed_assets item))) (column_float (investments item)))
       (column_float (accounts_payable item))) (column_float (loans_financing item)))
       (column_float (installments_payable item))"

text \<open>Lines 461--465.\<close>

definition variation_text :: "pyfloat option \<Rightarrow> pyfloat \<Rightarrow> py_exc + string" where
  "variation_text previous_equity equity =
     (case previous_equity of
        None \<Rightarrow> Inr ''N/A''
      | Some prev \<Rightarrow>
          (case pf_div (pf_sub equity prev) prev of
             Inl e \<Rightarrow> Inl e
           | Inr q \<Rightarrow>
               (let variation = pf_mul q (Finite 100)
                in Inr (if pf_nonzero variation
                        then format_f2 True False variation @ ''%''
                        else ''0,00%''))))"

text \<open>Line 468.\<close>

definition revenue_result_of :: "pyfloat \<Rightarrow> pyfloat \<Rightarrow> py_exc + pyfloat" where
  "revenue_result_of equity sales =
     (if pf_positive sales
      then (case pf_div equity sales of
              Inl e \<Rightarrow> Inl e
            | Inr q \<Rightarrow> Inr (pf_mul q (Finite 100)))
      else Inr (Finite 0))"

text \<open>
  Line 471 calls \<^verbatim>\<open>item.reference_date.strftime('%m/%Y')\<close>. The column is declared
  \<^verbatim>\<open>db.String(7)\<close> (line 33), so the attribute is looked up on a \<^verbatim>\<open>str\<close>, which has no
  such method: the lookup raises \<^verbatim>\<open>AttributeError\<close>, whatever the text and the format.
\<close>

definition str_strftime :: "string \<Rightarrow> string \<Rightarrow> py_exc + string" where
  "str_strftime s fmt = Inl AttributeError"

text \<open>Lines 470--476: the entries of the dict are evaluated in the order written.\<close>

definition make_result_row ::
  "FinancialData \<Rightarrow> pyfloat \<Rightarrow> string \<Rightarrow> pyfloat \<Rightarrow> py_exc + result_row" where
  "make_result_row item equity variation revenue_result =
     (case str_strftime (reference_date item) ''%m/%Y'' of
        Inl e \<Rightarrow> Inl e
      | Inr m \<Rightarrow>
          Inr \<lparr>r_month = m,
               r_equity = swap_separators (''R$ '' @ format_f2 False True equity),
               r_equity_raw = equity,
               r_variation = variation,
               r_revenue_result = format_f2 False False revenue_result @ ''%''\<rparr>)"

text \<open>The loop of lines 445--478, with \<^verbatim>\<open>previous_equity\<close> and \<^verbatim>\<open>results\<close> as arguments.\<close>

fun results_loop ::
  "FinancialData list \<Rightarrow> pyfloat option \<Rightarrow> result_row list \<Rightarrow> py_exc + result_row list" where
  "results_loop [] previous_equity results = Inr results"
| "results_loop (item # rest) previous_equity results =
     (let equity = equity_of item
      in (case variation_text previous_equity equity of
            Inl e \<Rightarrow> Inl e
          | Inr variation \<Rightarrow>
             (case revenue_result_of equity (column_float (total_sales item)) of
                Inl e \<Rightarrow> Inl e
              | Inr revenue_result \<Rightarrow>
                 (case make_result_row item equity variation revenue_result of
                    Inl e \<Rightarrow> Inl e
                  | Inr row \<Rightarrow> results_loop rest (Some equity) (results @ [row])))))"

definition get_financial_results :: "nat \<Rightarrow> db \<Rightarrow> response" where
  "get_financial_results current_user rows =
     (let data = sort_key reference_date (of_user current_user rows)
      in if data = [] then (ResultData StatusSuccess [], 200)
         else (case results_loop data None [] of
                 Inl e \<Rightarrow> (Message StatusError ResultsFailed, 500)
               | Inr results \<Rightarrow> (ResultData StatusSuccess results, 200)))"

section \<open>Sequences of requests\<close>

datatype request = Add nat json | Update nat json | Delete nat string

fun handle :: "request \<Rightarrow> db \<Rightarrow> response \<times> db" where
  "handle (Add uid data) rows = add_financial_data uid data rows"
| "handle (Update uid data) rows = update_financial_data uid data rows"
| "handle (Delete uid ref) rows = delete_financial_data uid ref rows"

fun run :: "request list \<Rightarrow> db \<Rightarrow> db" where
  "run [] rows = rows"
| "run (r # rs) rows = run rs (snd (handle r rows))"

section \<open>Notions of the specification\<close>

text \<open>
  The canonical period of the specification: a month from 01 to 12 in two digits, a
  slash, and a year from 2000 to 2099.
\<close>

definition canonical_period :: "string \<Rightarrow> bool" where
  "canonical_period s =
     (\<exists>m \<in> {1..12::nat}. \<exists>y \<in> {2000..2099::nat}. s = two_digits m @ ''/'' @ dec y)"





text \<open>At most one row per user and period, and every period canonical.\<close>

definition store_invariant :: "db \<Rightarrow> bool" where
  "store_invariant rows =
     (distinct (map (\<lambda>row. (user_id row, reference_date row)) rows)
      \<and> list_all (\<lambda>row. canonical_period (reference_date row)) rows)"

text \<open>A row for the examples: the cash balance is the only asset, so it is the equity.\<close>

definition snapshot :: "nat \<Rightarrow> string \<Rightarrow> rat \<Rightarrow> rat \<Rightarrow> FinancialData" where
  "snapshot uid ref cash sales =
     \<lparr>user_id = uid, reference_date = ref,
      cash_balance = Finite cash, bank_balance = Finite 0, accounts_receivable = Finite 0,
      inventory_balance = Finite 0, other_credits = Finite 0, fixed_assets = Finite 0,
      investments = Finite 0, accounts_payable = Finite 0, loans_financing = Finite 0,
      installments_payable = Finite 0, total_sales = Finite sales\<rparr>"

text \<open>A request body for the examples: a period and the same value in every field.\<close>

definition body_with :: "string \<Rightarrow> json \<Rightarrow> json" where
  "body_with ref v = JObj ((''reference_date'', JStr ref) # map (\<lambda>k. (k, v)) money_fields)"

text \<open>A request body whose cash balance is \<open>v\<close> and whose other fields are the number \<open>n\<close>.\<close>

definition body_cash :: "string \<Rightarrow> json \<Rightarrow> rat \<Rightarrow> json" where
  "body_cash ref v n =
     JObj ((''reference_date'', JStr ref) # (''cash_balance'', v)
           # map (\<lambda>k. (k, JNum n)) (tl money_fields))"

text \<open>
  What the three replacements of \<open>swap_separators\<close> do to one character other than
  the underscore: comma and point change places.
\<close>

definition swap_char :: "char \<Rightarrow> char" where
  "swap_char c = (if c = CHR '','' then CHR ''.'' else if c = CHR ''.'' then CHR '','' else c)"

section \<open>Evaluation lemmas\<close>

lemma dec_small: "n < 10 \<Longrightarrow> dec n = [digit_char n]"
  by (simp add: dec.simps)

lemma dec_large: "10 \<le> n \<Longrightarrow> dec n = dec (n div 10) @ [digit_char (n mod 10)]"
  by (subst dec.simps) simp

lemma group3_short: "length ds \<le> 3 \<Longrightarrow> group3 ds = ds"
  by (simp add: group3.simps)

lemma group3_long:
  "3 < length ds \<Longrightarrow>
   group3 ds = group3 (take (length ds - 3) ds) @ CHR '','' # drop (length ds - 3) ds"
  by (subst group3.simps) simp

lemmas eval_format =
  format_f2_def round_half_even_def dec_small dec_large group3_short group3_long
  two_digits_def digit_char_def

lemma bit_length_0: "bit_length 0 = 0"
  by (simp add: bit_length.simps)

lemma bit_length_pos: "0 < n \<Longrightarrow> bit_length n = Suc (bit_length (n div 2))"
  by (subst bit_length.simps) simp

lemmas eval_double =
  round_double_def ilog2_def pow2_def round_half_even_def bit_length_0 bit_length_pos Let_def

lemma round_double_examples:
  "round_double 0 = Finite 0" "round_double 100 = Finite 100"
  "round_double 500 = Finite 500" "round_double 1000 = Finite 1000"
  "round_double 1100 = Finite 1100"
  by (simp_all add: eval_double)

lemma equity_of_snapshot:
  assumes "round_double cash = Finite cash"
  shows "equity_of (snapshot uid ref cash sales) = Finite cash"
  using assms
  by (simp add: equity_of_def snapshot_def pf_sub_def round_double_examples(1))

section \<open>The metrics endpoint\<close>

lemma pf_div_positive: "pf_positive s \<Longrightarrow> \<exists>q. pf_div e s = Inr q"
  by (cases s; cases e) auto

lemma revenue_result_of_total: "\<exists>r. revenue_result_of e s = Inr r"
proof (cases "pf_positive s")
  case True
  then obtain q where "pf_div e s = Inr q"
    using pf_div_positive by blast
  with True show ?thesis by (simp add: revenue_result_of_def)
next
  case False
  then show ?thesis by (simp add: revenue_result_of_def)
qed

lemma results_loop_raises: "results_loop (item # rest) None results = Inl AttributeError"
proof -
  obtain r where "revenue_result_of (equity_of item) (column_float (total_sales item)) = Inr r"
    using revenue_result_of_total by blast
  then show ?thesis
    by (simp add: variation_text_def make_result_row_def str_strftime_def)
qed

lemma metrics_fail:
  assumes "of_user uid rows \<noteq> []"
  shows "get_financial_results uid rows = (Message StatusError ResultsFailed, 500)"
proof -
  have "sort_key reference_date (of_user uid rows) \<noteq> []"
    using assms by (metis length_sort length_0_conv)
  then obtain item rest where "sort_key reference_date (of_user uid rows) = item # rest"
    by (metis list.exhaust)
  then show ?thesis
    by (simp add: get_financial_results_def results_loop_raises del: results_loop.simps)
qed

text \<open>
  Claim C10. For a user with no stored snapshot the metrics endpoint answers with
  status success, an empty data list and HTTP 200: the test of line 436 returns before
  the loop.
\<close>

theorem metrics_empty_user:
  "of_user uid rows = [] \<Longrightarrow> get_financial_results uid rows = (ResultData StatusSuccess [], 200)"
  by (simp add: get_financial_results_def)

theorem metrics_empty_user_witness:
  "of_user 1 [snapshot 2 ''01/2024'' 1000 0] = []
   \<and> get_financial_results 1 [snapshot 2 ''01/2024'' 1000 0] = (ResultData StatusSuccess [], 200)"
proof -
  have h: "of_user 1 [snapshot 2 ''01/2024'' 1000 0] = []"
    by (simp add: of_user_def snapshot_def)
  show ?thesis using h metrics_empty_user [OF h] by simp
qed

text \<open>
  Claim C1. The claim says that a user with at least one snapshot gets a success
  response with one row per snapshot. The code does not: building the first row calls
  \<^verbatim>\<open>strftime\<close> on the period text (line 471), the \<^verbatim>\<open>AttributeError\<close> is caught at line
  485, and the answer is the error message with HTTP 500, for every user who has a
  snapshot.
\<close>

theorem metrics_with_snapshots_fail:
  "of_user uid rows \<noteq> [] \<Longrightarrow>
   get_financial_results uid rows = (Message StatusError ResultsFailed, 500)"
  by (rule metrics_fail)

theorem metrics_with_snapshots_fail_witness:
  "of_user 1 [snapshot 1 ''01/2024'' 1000 2000] \<noteq> []
   \<and> get_financial_results 1 [snapshot 1 ''01/2024'' 1000 2000]
       = (Message StatusError ResultsFailed, 500)"
proof -
  have h: "of_user 1 [snapshot 1 ''01/2024'' 1000 2000] \<noteq> []"
    by (simp add: of_user_def snapshot_def)
  show ?thesis using h metrics_with_snapshots_fail [OF h] by simp
qed

text \<open>
  Claim C9. With equity 500 and sales 0 the claim expects a row whose revenue-result
  text is \<^verbatim>\<open>0.00%\<close>. Line 468 computes the number 0 and the format of line 475 would
  give that text, but the dict of lines 470--476 fails at its first entry (the defect of
  claim C1), so the endpoint answers with the error message and no row.
\<close>

theorem revenue_result_row_not_produced:
  "get_financial_results 1 [snapshot 1 ''01/2024'' 500 0]
     = (Message StatusError ResultsFailed, 500)
   \<and> equity_of (snapshot 1 ''01/2024'' 500 0) = Finite 500
   \<and> total_sales (snapshot 1 ''01/2024'' 500 0) = Finite 0
   \<and> revenue_result_of (Finite 500) (Finite 0) = Inr (Finite 0)
   \<and> format_f2 False False (Finite 0) @ ''%'' = ''0.00%''"
proof -
  have "of_user 1 [snapshot 1 ''01/2024'' 500 0] \<noteq> []"
    by (simp add: of_user_def snapshot_def)
  then have "get_financial_results 1 [snapshot 1 ''01/2024'' 500 0]
     = (Message StatusError ResultsFailed, 500)"
    by (rule metrics_fail)
  moreover have "total_sales (snapshot 1 ''01/2024'' 500 0) = Finite 0"
    by (simp add: snapshot_def)
  moreover have "revenue_result_of (Finite 500) (Finite 0) = Inr (Finite 0)"
    by (simp add: revenue_result_of_def)
  moreover have "format_f2 False False (Finite 0) @ ''%'' = ''0.00%''"
    by (simp add: eval_format)
  ultimately show ?thesis
    by (simp add: equity_of_snapshot [OF round_double_examples(3)])
qed

subsection \<open>The variation text\<close>

text \<open>
  The texts for the equities 1000 and 1100. The difference is 100; the quotient 100 / 1000
  is the double nearest to one tenth, a little above it; its product with 100 is a little
  above 10 and rounds to 10.
\<close>

lemma quotient_of_fraction:
  "0 < d \<Longrightarrow> coprime n d \<Longrightarrow> quotient_of (of_int n / of_int d) = (n, d)"
  by (simp add: Fract_of_int_quotient [symmetric] quotient_of_Fract Rat.normalize_stable)

lemma quotient_of_odd_pow2: "odd n \<Longrightarrow> quotient_of (of_int n / 2 ^ k) = (n, 2 ^ k)"
  using quotient_of_fraction [of "2 ^ k" n] by simp

lemma round_double_value:
  assumes "0 < r" and "ilog2 r = e" and "q = max (e - 52) (- 1074)"
    and "round_half_even (r / pow2 q) = m" and "of_int m * pow2 q < pow2 1024"
  shows "round_double r = Finite (of_int m * pow2 q)"
  using assms by (simp add: round_double_def Let_def)

lemma tenth_quot: "quotient_of (1 / 10) = (1, 10)"
  using quotient_of_fraction [of 10 1] by simp

lemma tenth_log: "ilog2 (1 / 10) = - 4"
  by (simp add: ilog2_def tenth_quot bit_length_pos bit_length_0 pow2_def)

lemma tenth_scaled: "round_half_even (36028797018963968 / 5) = 7205759403792794"
proof -
  have "coprime (2::int) 5" by simp
  then have "coprime ((2::int) ^ 55) 5" by (subst coprime_power_left_iff) simp
  then have "coprime (36028797018963968 :: int) 5" by simp
  from quotient_of_fraction [OF _ this]
  have "quotient_of (36028797018963968 / 5) = (36028797018963968, 5)" by simp
  then show ?thesis by (simp add: round_half_even_def)
qed

lemma double_tenth: "round_double (1 / 10) = Finite (3602879701896397 / 36028797018963968)"
  using round_double_value [of "1 / 10" "- 4" "- 56" 7205759403792794]
  by (simp add: tenth_log tenth_scaled pow2_def)

lemma ten_quot:
  "quotient_of (90071992547409925 / 9007199254740992) = (90071992547409925, 9007199254740992)"
  using quotient_of_odd_pow2 [of 90071992547409925 53] by simp

lemma ten_log: "ilog2 (90071992547409925 / 9007199254740992) = 3"
  by (simp add: ilog2_def ten_quot bit_length_pos bit_length_0 pow2_def)

lemma ten_scaled: "round_half_even (90071992547409925 / 16) = 5629499534213120"
proof -
  have "quotient_of (90071992547409925 / 16) = (90071992547409925, 16)"
    using quotient_of_odd_pow2 [of 90071992547409925 4] by simp
  then show ?thesis by (simp add: round_half_even_def)
qed

lemma double_ten: "round_double (90071992547409925 / 9007199254740992) = Finite 10"
  using round_double_value [of "90071992547409925 / 9007199254740992" 3 "- 49" 5629499534213120]
  by (simp add: ten_log ten_scaled pow2_def)

lemma signed_ten: "format_f2 True False (Finite 10) = ''+10.00''"
  by (simp add: eval_format)

lemma variation_example:
  "variation_text (Some (Finite 1000)) (Finite 1100) = Inr ''+10.00%''"
proof -
  have d: "pf_sub (Finite 1100) (Finite 1000) = Finite 100"
    by (simp add: pf_sub_def round_double_examples)
  have q: "pf_div (Finite 100) (Finite 1000)
      = Inr (Finite (3602879701896397 / 36028797018963968))"
    by (simp add: double_tenth)
  have "(3602879701896397 / 36028797018963968) * 100
      = (90071992547409925 / 9007199254740992 :: rat)"
    by simp
  then have v: "pf_mul (Finite (3602879701896397 / 36028797018963968)) (Finite 100)
      = Finite 10"
    unfolding pf_mul.simps by (simp only: double_ten)
  show ?thesis
    unfolding variation_text_def
    by (simp add: d q v signed_ten del: pf_mul.simps pf_div.simps pf_add.simps)
qed

text \<open>
  Claim C4. With the snapshots \<^verbatim>\<open>01/2024\<close> of equity 1000 and \<^verbatim>\<open>02/2024\<close> of equity 1100
  the claim expects two rows, with the variation texts \<^verbatim>\<open>N/A\<close> and \<^verbatim>\<open>+10.00%\<close>. Lines
  461--465 give these texts for these equities, but the dict of lines 470--476 fails at
  its first entry in the first iteration (the defect of claim C1): the loop ends there,
  the second iteration never runs, and the endpoint answers with the error message and
  no row.
\<close>

theorem variation_rows_not_produced:
  "get_financial_results 1 [snapshot 1 ''01/2024'' 1000 0, snapshot 1 ''02/2024'' 1100 0]
     = (Message StatusError ResultsFailed, 500)
   \<and> results_loop [snapshot 1 ''01/2024'' 1000 0, snapshot 1 ''02/2024'' 1100 0] None []
       = Inl AttributeError
   \<and> equity_of (snapshot 1 ''01/2024'' 1000 0) = Finite 1000
   \<and> equity_of (snapshot 1 ''02/2024'' 1100 0) = Finite 1100
   \<and> variation_text None (Finite 1000) = Inr ''N/A''
   \<and> variation_text (Some (Finite 1000)) (Finite 1100) = Inr ''+10.00%''"
proof -
  have "of_user 1 [snapshot 1 ''01/2024'' 1000 0, snapshot 1 ''02/2024'' 1100 0] \<noteq> []"
    by (simp add: of_user_def snapshot_def)
  then have "get_financial_results 1
      [snapshot 1 ''01/2024'' 1000 0, snapshot 1 ''02/2024'' 1100 0]
     = (Message StatusError ResultsFailed, 500)"
    by (rule metrics_fail)
  moreover have "results_loop
      [snapshot 1 ''01/2024'' 1000 0, snapshot 1 ''02/2024'' 1100 0] None []
       = Inl AttributeError"
    by (rule results_loop_raises)
  moreover have "equity_of (snapshot 1 ''01/2024'' 1000 0) = Finite 1000"
    by (rule equity_of_snapshot [OF round_double_examples(4)])
  moreover have "equity_of (snapshot 1 ''02/2024'' 1100 0) = Finite 1100"
    by (rule equity_of_snapshot [OF round_double_examples(5)])
  moreover have "variation_text None (Finite 1000) = Inr ''N/A''"
    by (simp add: variation_text_def)
  moreover have "variation_text (Some (Finite 1000)) (Finite 1100) = Inr ''+10.00%''"
    by (rule variation_example)
  ultimately show ?thesis by (intro conjI)
qed

section \<open>Periods\<close>

lemma is_digit_cases:
  "is_digit c \<Longrightarrow> c \<in> set ''0123456789''"
  by (simp only: is_digit_def)

lemma digit_char_val: "is_digit c \<Longrightarrow> digit_char (digit_val c) = c"
  by (auto dest!: is_digit_cases simp: digit_char_def digit_val_def)

lemma digit_val_less: "is_digit c \<Longrightarrow> digit_val c < 10"
  by (auto dest!: is_digit_cases simp: digit_val_def)

lemma nat_less_10_cases: "(n::nat) < 10 \<Longrightarrow> n \<in> {0, 1, 2, 3, 4, 5, 6, 7, 8, 9}"
  by auto

lemma is_digit_digit_char: "n < 10 \<Longrightarrow> is_digit (digit_char n)"
  by (auto dest!: nat_less_10_cases simp: is_digit_def digit_char_def)

lemma digit_val_digit_char: "n < 10 \<Longrightarrow> digit_val (digit_char n) = n"
  by (auto dest!: nat_less_10_cases simp: digit_val_def digit_char_def)

lemma divmod_nat: "r < k \<Longrightarrow> (k * q + r) div k = q \<and> (k * q + r) mod (k::nat) = r"
  by simp

lemma dec_year:
  assumes a: "a < 10" and b: "b < 10"
  shows "dec (2000 + 10 * a + b) = [CHR ''2'', CHR ''0'', digit_char a, digit_char b]"
proof -
  have e0: "2000 + 10 * a + b = 10 * (200 + a) + b" by simp
  have d0: "(2000 + 10 * a + b) div 10 = 200 + a" "(2000 + 10 * a + b) mod 10 = b"
    unfolding e0 using divmod_nat [OF b, of "200 + a"] by blast+
  have e1: "200 + a = 10 * 20 + a" by simp
  have d1: "(200 + a) div 10 = 20" "(200 + a) mod 10 = a"
    unfolding e1 using divmod_nat [OF a, of 20] by blast+
  have "dec (2000 + 10 * a + b) = dec (200 + a) @ [digit_char b]"
    by (subst dec_large) (simp_all add: d0)
  also have "dec (200 + a) = dec 20 @ [digit_char a]"
    by (subst dec_large) (simp_all add: d1)
  also have "dec 20 = [CHR ''2'', CHR ''0'']"
    by (simp add: dec_large dec_small digit_char_def)
  finally show ?thesis by simp
qed

lemma year_decompose:
  assumes "2000 \<le> y" "y \<le> 2099"
  shows "\<exists>a b. a < 10 \<and> b < 10 \<and> y = 2000 + 10 * a + (b::nat)"
proof -
  define k where "k = y - 2000"
  have k: "k < 100" "y = 2000 + k" using assms by (simp_all add: k_def)
  have "k = 10 * (k div 10) + k mod 10" by simp
  then have "y = 2000 + 10 * (k div 10) + k mod 10" using k(2) by simp
  moreover have "k div 10 < 10" using k(1) by (simp add: less_mult_imp_div_less)
  moreover have "k mod 10 < 10" by simp
  ultimately show ?thesis by blast
qed

lemma month_two_imp:
  assumes "month_two m1 m2"
  shows "\<exists>m. 1 \<le> m \<and> m \<le> 12 \<and> two_digits m = [m1, m2]"
proof -
  from assms consider "m1 = CHR ''0''" "m2 \<in> set ''123456789''"
    | "m1 = CHR ''1''" "m2 \<in> set ''012''"
    by (auto simp: month_two_def)
  then show ?thesis
  proof cases
    case 1
    then have d: "is_digit m2" "1 \<le> digit_val m2"
      by (auto simp: is_digit_def digit_val_def)
    have "digit_val m2 div 10 = 0" "digit_val m2 mod 10 = digit_val m2"
      using digit_val_less [OF d(1)] by simp_all
    then have "two_digits (digit_val m2) = [m1, m2]"
      using 1 digit_char_val [OF d(1)]
      by (simp add: two_digits_def) (simp add: digit_char_def)
    moreover have "digit_val m2 \<le> 12" using digit_val_less [OF d(1)] by simp
    ultimately show ?thesis using d(2) by blast
  next
    case 2
    then have d: "is_digit m2" "digit_val m2 \<le> 2"
      by (auto simp: is_digit_def digit_val_def)
    have "digit_val m2 < 10" using d(2) by simp
    from divmod_nat [OF this, of 1]
    have "(10 + digit_val m2) div 10 = 1" "(10 + digit_val m2) mod 10 = digit_val m2"
      by simp_all
    then have "two_digits (10 + digit_val m2) = [m1, m2]"
      using 2 digit_char_val [OF d(1)]
      by (simp add: two_digits_def) (simp add: digit_char_def)
    moreover have "1 \<le> 10 + digit_val m2" "10 + digit_val m2 \<le> 12" using d(2) by simp_all
    ultimately show ?thesis by blast
  qed
qed

lemma two_digits_month:
  assumes "1 \<le> m" "m \<le> 12"
  shows "\<exists>m1 m2. two_digits m = [m1, m2] \<and> month_two m1 m2"
proof -
  from assms have "m = 1 \<or> m = 2 \<or> m = 3 \<or> m = 4 \<or> m = 5 \<or> m = 6 \<or> m = 7 \<or> m = 8
      \<or> m = 9 \<or> m = 10 \<or> m = 11 \<or> m = 12" by arith
  then show ?thesis
    by (elim disjE) (simp_all add: two_digits_def digit_char_def month_two_def)
qed

lemma period_pattern_shape:
  "period_pattern s =
     (\<exists>m1 m2 y3 y4. s = [m1, m2, CHR ''/'', CHR ''2'', CHR ''0'', y3, y4]
        \<and> month_two m1 m2 \<and> is_digit y3 \<and> is_digit y4)"
proof
  assume "period_pattern s"
  then show "\<exists>m1 m2 y3 y4. s = [m1, m2, CHR ''/'', CHR ''2'', CHR ''0'', y3, y4]
        \<and> month_two m1 m2 \<and> is_digit y3 \<and> is_digit y4"
    by (rule period_pattern.elims) simp_all
next
  assume "\<exists>m1 m2 y3 y4. s = [m1, m2, CHR ''/'', CHR ''2'', CHR ''0'', y3, y4]
        \<and> month_two m1 m2 \<and> is_digit y3 \<and> is_digit y4"
  then show "period_pattern s" by auto
qed

lemma period_pattern_length: "period_pattern s \<Longrightarrow> length s = 7"
  by (auto simp: period_pattern_shape)

lemma strptime_length: "strptime_month_year s = Inr x \<Longrightarrow> length s = 6 \<or> length s = 7"
  by (erule strptime_month_year.elims) (simp_all split: if_splits)

lemma nat_of_digits_year:
  "nat_of_digits [CHR ''2'', CHR ''0'', c, d] = 2000 + 10 * digit_val c + digit_val d"
  by (simp add: nat_of_digits_def digit_val_def)

lemma canonical_imp_pattern:
  assumes "canonical_period s"
  shows "period_pattern s"
proof -
  from assms obtain m y where m: "1 \<le> m" "m \<le> 12" and y: "2000 \<le> y" "y \<le> 2099"
    and s: "s = two_digits m @ ''/'' @ dec (y::nat)"
    by (auto simp: canonical_period_def)
  from y obtain a b where ab: "a < 10" "b < 10" "y = 2000 + 10 * a + b"
    using year_decompose by blast
  from m obtain m1 m2 where mm: "two_digits m = [m1, m2]" "month_two m1 m2"
    using two_digits_month by blast
  have "s = [m1, m2, CHR ''/'', CHR ''2'', CHR ''0'', digit_char a, digit_char b]"
    by (simp add: s mm(1) ab(3) dec_year [OF ab(1) ab(2)])
  then show ?thesis
    using mm(2) ab by (simp add: is_digit_digit_char)
qed

lemma pattern_imp_canonical:
  assumes "period_pattern s"
  shows "canonical_period s"
proof -
  from assms obtain m1 m2 y3 y4 where s: "s = [m1, m2, CHR ''/'', CHR ''2'', CHR ''0'', y3, y4]"
    and mm: "month_two m1 m2" and dy: "is_digit y3" "is_digit y4"
    by (auto simp: period_pattern_shape)
  define y where "y = 2000 + 10 * digit_val y3 + digit_val y4"
  have yr: "2000 \<le> y" "y \<le> 2099"
    using digit_val_less [OF dy(1)] digit_val_less [OF dy(2)] by (simp_all add: y_def)
  have dy': "dec y = [CHR ''2'', CHR ''0'', y3, y4]"
    unfolding y_def
    using dec_year [OF digit_val_less [OF dy(1)] digit_val_less [OF dy(2)]]
    by (simp add: digit_char_val dy)
  from mm obtain m where mr: "1 \<le> m" "m \<le> 12" and mt: "two_digits m = [m1, m2]"
    using month_two_imp by blast
  have "s = two_digits m @ ''/'' @ dec y"
    by (simp add: s mt dy')
  moreover have "m \<in> {1..12}" "y \<in> {2000..2099}"
    using mr yr by simp_all
  ultimately show ?thesis
    unfolding canonical_period_def by blast
qed

lemma strptime_of_pattern:
  assumes "period_pattern s"
  shows "\<exists>x. strptime_month_year s = Inr x"
proof -
  from assms obtain m1 m2 y3 y4 where s: "s = [m1, m2, CHR ''/'', CHR ''2'', CHR ''0'', y3, y4]"
    and mm: "month_two m1 m2" and dy: "is_digit y3" "is_digit y4"
    by (auto simp: period_pattern_shape)
  have "is_digit (CHR ''2'')" "is_digit (CHR ''0'')" by (simp_all add: is_digit_def)
  then show ?thesis
    using mm dy by (simp add: s nat_of_digits_year)
qed

lemma validate_iff_pattern: "(validate_reference_date s = Inr ()) = period_pattern s"
proof
  assume v: "validate_reference_date s = Inr ()"
  then have rm: "re_match_period s" and "\<exists>x. strptime_month_year s = Inr x"
    by (auto simp: validate_reference_date_def split: if_splits sum.splits)
  then have len: "length s = 6 \<or> length s = 7" using strptime_length by blast
  show "period_pattern s"
  proof (rule ccontr)
    assume "\<not> period_pattern s"
    with rm have "period_pattern (butlast s)" by (simp add: re_match_period_def)
    then have "length (butlast s) = 7" by (rule period_pattern_length)
    then have "length s - 1 = 7" by simp
    with len show False by arith
  qed
next
  assume p: "period_pattern s"
  then obtain x where "strptime_month_year s = Inr x"
    using strptime_of_pattern by blast
  with p show "validate_reference_date s = Inr ()"
    by (simp add: validate_reference_date_def re_match_period_def)
qed

lemma validate_iff_canonical: "(validate_reference_date s = Inr ()) = canonical_period s"
  using validate_iff_pattern canonical_imp_pattern pattern_imp_canonical by blast

lemma validate_cases: "validate_reference_date s = Inr () \<or> validate_reference_date s = Inl ValueError"
  by (cases "strptime_month_year s")
     (auto simp: validate_reference_date_def elim: strptime_month_year.elims split: if_splits)

section \<open>Validation of the period on create\<close>

lemma normalize_13: "normalize_reference_date ''13/2024'' = Inr ''13/2024''"
  by (simp add: normalize_reference_date_def py_strip_def strip_with_def py_isspace_def zfill_def)

lemma validate_13: "validate_reference_date ''13/2024'' = Inl ValueError"
  by (simp add: validate_reference_date_def re_match_period_def month_two_def)

lemma validate_01_2024: "validate_reference_date ''01/2024'' = Inr ()"
  by (simp add: validate_iff_pattern month_two_def is_digit_def)

lemma add_invalid_iff:
  assumes "subscript data ''reference_date'' = Inr (JStr raw)"
  shows "(fst (add_financial_data uid data rows) = (Message StatusError InvalidDateFormat, 400))
           = (\<not> (\<exists>ref. normalize_reference_date raw = Inr ref \<and> canonical_period ref))"
proof (cases "normalize_reference_date raw")
  case (Inl e)
  then show ?thesis using assms by (simp add: add_financial_data_def)
next
  case (Inr ref)
  show ?thesis
  proof (cases "canonical_period ref")
    case False
    then have "validate_reference_date ref = Inl ValueError"
      using validate_cases [of ref] validate_iff_canonical [of ref] by auto
    then show ?thesis using assms Inr False by (simp add: add_financial_data_def)
  next
    case True
    then have "validate_reference_date ref = Inr ()"
      using validate_iff_canonical by blast
    then show ?thesis using assms Inr True
      by (auto simp: add_financial_data_def split: option.splits sum.splits)
  qed
qed

lemma add_invalid_unchanged:
  "fst (add_financial_data uid data rows) = (Message StatusError InvalidDateFormat, 400)
   \<Longrightarrow> snd (add_financial_data uid data rows) = rows"
  by (auto simp: add_financial_data_def split: option.splits sum.splits json.splits if_splits)

text \<open>
  Claim C7. On the create path the validation of the normalised period (the pattern of
  line 126 followed by \<^verbatim>\<open>strptime\<close>, line 129) succeeds exactly on the canonical periods:
  month 01 to 12 and a four-digit year from 2000 to 2099. A create request is answered
  with the invalid-period error exactly when its period does not normalise to such a
  text; the period \<^verbatim>\<open>13/2024\<close> is rejected that way and leaves the table unchanged.
\<close>

theorem period_validation:
  "(validate_reference_date s = Inr ()) = canonical_period s
   \<and> (subscript data ''reference_date'' = Inr (JStr raw) \<longrightarrow>
        (fst (add_financial_data uid data rows) = (Message StatusError InvalidDateFormat, 400))
          = (\<not> (\<exists>ref. normalize_reference_date raw = Inr ref \<and> canonical_period ref)))
   \<and> (subscript data ''reference_date'' = Inr (JStr ''13/2024'') \<longrightarrow>
        add_financial_data uid data rows = ((Message StatusError InvalidDateFormat, 400), rows))"
proof (intro conjI impI)
  show "(validate_reference_date s = Inr ()) = canonical_period s"
    by (rule validate_iff_canonical)
next
  assume "subscript data ''reference_date'' = Inr (JStr raw)"
  then show "(fst (add_financial_data uid data rows) = (Message StatusError InvalidDateFormat, 400))
          = (\<not> (\<exists>ref. normalize_reference_date raw = Inr ref \<and> canonical_period ref))"
    by (rule add_invalid_iff)
next
  assume "subscript data ''reference_date'' = Inr (JStr ''13/2024'')"
  then show "add_financial_data uid data rows = ((Message StatusError InvalidDateFormat, 400), rows)"
    by (simp add: add_financial_data_def normalize_13 validate_13)
qed

lemma subscript_body_with_ref: "subscript (body_with ref v) ''reference_date'' = Inr (JStr ref)"
  by (simp add: body_with_def dict_get_def money_fields_def)

theorem period_validation_witness:
  "validate_reference_date ''01/2024'' = Inr ()
   \<and> canonical_period ''01/2024''
   \<and> subscript (body_with ''13/2024'' (JStr ''R$ 1,00'')) ''reference_date'' = Inr (JStr ''13/2024'')
   \<and> normalize_reference_date ''13/2024'' = Inr ''13/2024''
   \<and> \<not> canonical_period ''13/2024''
   \<and> add_financial_data 1 (body_with ''13/2024'' (JStr ''R$ 1,00'')) []
        = ((Message StatusError InvalidDateFormat, 400), [])"
  using period_validation [of "''01/2024''" "body_with ''13/2024'' (JStr ''R$ 1,00'')" "''13/2024''" 1 "[]"]
    period_validation [of "''13/2024''" "body_with ''13/2024'' (JStr ''R$ 1,00'')" "''13/2024''" 1 "[]"]
  by (simp add: subscript_body_with_ref validate_01_2024 validate_13 normalize_13)

section \<open>The create path and the store\<close>

lemma is_digit_not_space: "is_digit c \<Longrightarrow> \<not> py_isspace c"
  by (auto dest!: is_digit_cases simp: py_isspace_def)

lemma is_digit_not_slash: "is_digit c \<Longrightarrow> c \<noteq> CHR ''/''"
  by (auto dest!: is_digit_cases)

lemma month_two_digits: "month_two m1 m2 \<Longrightarrow> is_digit m1 \<and> is_digit m2"
  by (auto simp: month_two_def is_digit_def)

lemma canonical_shape:
  assumes "canonical_period s"
  shows "\<exists>m1 m2 y3 y4. s = [m1, m2, CHR ''/'', CHR ''2'', CHR ''0'', y3, y4]
           \<and> is_digit m1 \<and> is_digit m2 \<and> is_digit y3 \<and> is_digit y4"
  using canonical_imp_pattern [OF assms] month_two_digits
  by (auto simp: period_pattern_shape)

lemma strip_canonical:
  assumes "canonical_period s"
  shows "py_strip s = s"
proof -
  from canonical_shape [OF assms] obtain m1 m2 y3 y4
    where s: "s = [m1, m2, CHR ''/'', CHR ''2'', CHR ''0'', y3, y4]"
      and d: "is_digit m1" "is_digit y4"
    by blast
  show ?thesis
    using is_digit_not_space [OF d(1)] is_digit_not_space [OF d(2)]
    by (simp add: s py_strip_def strip_with_def)
qed

lemma split_canonical:
  assumes "canonical_period s"
  shows "\<exists>mo yr. py_split (CHR ''/'') s = [mo, yr] \<and> length mo = 2 \<and> mo @ ''/'' @ yr = s"
proof -
  from canonical_shape [OF assms] obtain m1 m2 y3 y4
    where s: "s = [m1, m2, CHR ''/'', CHR ''2'', CHR ''0'', y3, y4]"
      and d: "is_digit m1" "is_digit m2" "is_digit y3" "is_digit y4"
    by blast
  have "py_split (CHR ''/'') s = [[m1, m2], [CHR ''2'', CHR ''0'', y3, y4]]"
    using d [THEN is_digit_not_slash] by (simp add: s)
  then show ?thesis by (simp add: s)
qed

lemma normalize_date_canonical:
  assumes "canonical_period s"
  shows "normalize_date s = s"
proof -
  from split_canonical [OF assms] obtain mo yr
    where sp: "py_split (CHR ''/'') s = [mo, yr]" and len: "length mo = 2"
      and eq: "mo @ ''/'' @ yr = s"
    by blast
  have "normalize_date s = zfill 2 mo @ ''/'' @ yr"
    by (simp add: normalize_date_def strip_canonical [OF assms] sp)
  also have "zfill 2 mo = mo" by (simp add: zfill_def len)
  finally show ?thesis using eq by simp
qed

lemma validate_canonical: "canonical_period s \<Longrightarrow> validate_reference_date s = Inr ()"
  using validate_iff_canonical by blast

lemma validate_not_canonical:
  "\<not> canonical_period s \<Longrightarrow> validate_reference_date s = Inl ValueError"
  using validate_cases [of s] validate_iff_canonical [of s] by auto

lemma new_FinancialData_key:
  "new_FinancialData uid ref amounts = Some row \<Longrightarrow>
   user_id row = uid \<and> reference_date row = normalize_date ref \<and> amounts_of row = amounts"
  by (auto simp: new_FinancialData_def amounts_of_def split: list.splits)

lemma add_success:
  assumes sub: "subscript data ''reference_date'' = Inr (JStr raw)"
    and ok: "fst (add_financial_data uid data rows) = (Message StatusSuccess Added, 200)"
  shows "\<exists>ref amounts row.
           normalize_reference_date raw = Inr ref \<and> canonical_period ref
           \<and> query_first uid ref rows = None
           \<and> sequence_exc (map (currency_field data) money_fields) = Inr amounts
           \<and> new_FinancialData uid ref amounts = Some row
           \<and> snd (add_financial_data uid data rows) = rows @ [row]"
proof (cases "normalize_reference_date raw")
  case (Inl e)
  then show ?thesis using sub ok by (simp add: add_financial_data_def)
next
  case (Inr ref)
  show ?thesis
  proof (cases "canonical_period ref")
    case False
    then show ?thesis
      using sub ok Inr by (simp add: add_financial_data_def validate_not_canonical)
  next
    case True
    then show ?thesis
      using sub ok Inr
      by (auto simp: add_financial_data_def validate_canonical
               split: option.splits sum.splits if_splits)
  qed
qed

lemma add_result:
  "snd (add_financial_data uid data rows) = rows
   \<or> (\<exists>ref row. canonical_period ref \<and> query_first uid ref rows = None
         \<and> user_id row = uid \<and> reference_date row = ref
         \<and> snd (add_financial_data uid data rows) = rows @ [row])"
proof (cases "fst (add_financial_data uid data rows) = (Message StatusSuccess Added, 200)")
  case False
  then show ?thesis
    by (auto simp: add_financial_data_def split: option.splits sum.splits if_splits json.splits)
next
  case True
  then obtain raw where "subscript data ''reference_date'' = Inr (JStr raw)"
    by (auto simp: add_financial_data_def split: option.splits sum.splits if_splits json.splits)
  from add_success [OF this True] obtain ref amounts row where
    r: "canonical_period ref" "query_first uid ref rows = None"
      "new_FinancialData uid ref amounts = Some row"
      "snd (add_financial_data uid data rows) = rows @ [row]"
    by blast
  from new_FinancialData_key [OF r(3)] normalize_date_canonical [OF r(1)]
  have "user_id row = uid" "reference_date row = ref" by simp_all
  with r show ?thesis by blast
qed

lemma query_first_None: "(query_first uid ref rows = None) = (\<forall>row \<in> set rows. \<not> matches uid ref row)"
  by (auto simp: query_first_def find_None_iff)

lemma query_first_Some:
  "query_first uid ref rows = Some row \<Longrightarrow> row \<in> set rows \<and> matches uid ref row"
  by (auto simp: query_first_def find_Some_iff)

lemma map_replace_first:
  "find p rows = Some x \<Longrightarrow> f y = f x \<Longrightarrow> map f (replace_first p y rows) = map f rows"
  by (induction rows) (auto split: if_splits)

lemma set_remove_first: "set (remove_first p xs) \<subseteq> set xs"
  by (induction xs) auto

lemma distinct_map_remove_first:
  "distinct (map f xs) \<Longrightarrow> distinct (map f (remove_first p xs))"
proof (induction xs)
  case Nil
  then show ?case by simp
next
  case (Cons x xs)
  then show ?case using set_remove_first [of p xs] by auto
qed

lemma store_invariant_keys:
  "store_invariant rows =
     (distinct (map (\<lambda>row. (user_id row, reference_date row)) rows)
      \<and> (\<forall>k \<in> set (map (\<lambda>row. (user_id row, reference_date row)) rows). canonical_period (snd k)))"
  by (auto simp: store_invariant_def list_all_iff)

lemma add_preserves:
  assumes "store_invariant rows"
  shows "store_invariant (snd (add_financial_data uid data rows))"
proof -
  from add_result [of uid data rows] show ?thesis
  proof
    assume "snd (add_financial_data uid data rows) = rows"
    then show ?thesis using assms by simp
  next
    assume "\<exists>ref row. canonical_period ref \<and> query_first uid ref rows = None
         \<and> user_id row = uid \<and> reference_date row = ref
         \<and> snd (add_financial_data uid data rows) = rows @ [row]"
    then obtain ref row where r: "canonical_period ref" "query_first uid ref rows = None"
        "user_id row = uid" "reference_date row = ref"
        "snd (add_financial_data uid data rows) = rows @ [row]"
      by blast
    from r(2) have "(uid, ref) \<notin> set (map (\<lambda>row. (user_id row, reference_date row)) rows)"
      by (auto simp: query_first_None matches_def)
    then show ?thesis
      using assms r by (simp add: store_invariant_def)
  qed
qed

lemma update_result:
  "snd (update_financial_data uid data rows) = rows
   \<or> (\<exists>x y p. find p rows = Some x \<and> user_id y = user_id x \<and> reference_date y = reference_date x
         \<and> snd (update_financial_data uid data rows) = replace_first p y rows)"
proof (cases "fst (update_financial_data uid data rows) = (Message StatusSuccess Updated, 200)")
  case False
  then show ?thesis
    by (auto simp: update_financial_data_def split: option.splits sum.splits if_splits)
next
  case True
  then obtain ref fd amounts updated where
    q: "query_first_json uid ref rows = Inr (Some fd)"
    and a: "assign_amounts fd amounts = Some updated"
    and r: "snd (update_financial_data uid data rows)
              = replace_first (matches uid (reference_date fd)) updated rows"
    by (auto simp: update_financial_data_def split: option.splits sum.splits if_splits)
  from q obtain s where s: "ref = JStr s" "query_first uid s rows = Some fd"
    by (cases ref) auto
  from query_first_Some [OF s(2)] have "reference_date fd = s"
    by (simp add: matches_def)
  with s(2) have "find (matches uid (reference_date fd)) rows = Some fd"
    by (simp add: query_first_def)
  moreover from a have "user_id updated = user_id fd" "reference_date updated = reference_date fd"
    by (auto simp: assign_amounts_def split: list.splits)
  ultimately show ?thesis using r by blast
qed

lemma update_preserves:
  assumes "store_invariant rows"
  shows "store_invariant (snd (update_financial_data uid data rows))"
proof -
  from update_result [of uid data rows] show ?thesis
  proof
    assume "snd (update_financial_data uid data rows) = rows"
    then show ?thesis using assms by simp
  next
    assume "\<exists>x y p. find p rows = Some x \<and> user_id y = user_id x
         \<and> reference_date y = reference_date x
         \<and> snd (update_financial_data uid data rows) = replace_first p y rows"
    then obtain x y p where f: "find p rows = Some x"
      and k: "user_id y = user_id x" "reference_date y = reference_date x"
      and r: "snd (update_financial_data uid data rows) = replace_first p y rows"
      by blast
    have "map (\<lambda>row. (user_id row, reference_date row)) (replace_first p y rows)
            = map (\<lambda>row. (user_id row, reference_date row)) rows"
      by (rule map_replace_first [OF f]) (simp add: k)
    then show ?thesis
      using assms unfolding store_invariant_keys r by simp
  qed
qed

lemma delete_preserves:
  assumes "store_invariant rows"
  shows "store_invariant (snd (delete_financial_data uid ref rows))"
proof (cases "query_first uid ref rows")
  case None
  then show ?thesis using assms by (simp add: delete_financial_data_def)
next
  case (Some fd)
  have "distinct (map (\<lambda>row. (user_id row, reference_date row))
            (remove_first (matches uid ref) rows))"
    using assms by (simp add: store_invariant_def distinct_map_remove_first)
  moreover have "list_all (\<lambda>row. canonical_period (reference_date row))
            (remove_first (matches uid ref) rows)"
    using assms set_remove_first [of "matches uid ref" rows]
    by (auto simp: store_invariant_def list_all_iff)
  ultimately show ?thesis
    using Some by (simp add: delete_financial_data_def store_invariant_def)
qed

lemma handle_preserves: "store_invariant rows \<Longrightarrow> store_invariant (snd (handle r rows))"
  by (cases r) (simp_all add: add_preserves update_preserves delete_preserves)

lemma run_preserves: "store_invariant rows \<Longrightarrow> store_invariant (run reqs rows)"
  by (induction reqs arbitrary: rows) (simp_all add: handle_preserves)

lemma store_invariant_empty: "store_invariant []"
  by (simp add: store_invariant_def)

section \<open>One snapshot per user and period\<close>

lemma normalize_1_2024: "normalize_reference_date ''1/2024'' = Inr ''01/2024''"
  by (simp add: normalize_reference_date_def py_strip_def strip_with_def py_isspace_def zfill_def)

lemma normalize_01_2024: "normalize_reference_date ''01/2024'' = Inr ''01/2024''"
  by (simp add: normalize_reference_date_def py_strip_def strip_with_def py_isspace_def zfill_def)

lemma canonical_01_2024: "canonical_period ''01/2024''"
  using validate_01_2024 validate_iff_canonical by blast

lemma subscript_body_with_field:
  "k \<in> set money_fields \<Longrightarrow> subscript (body_with ref v) k = Inr v"
  by (auto simp: body_with_def dict_get_def money_fields_def)

lemma process_currency_number: "process_currency (JNum r) = Inr (Finite 0)"
  by (simp add: process_currency_def process_currency_try_def)

lemma amounts_body_with:
  "sequence_exc (map (currency_field (body_with ref (JNum r))) money_fields)
     = Inr (replicate 11 (Finite 0))"
proof -
  have "\<And>k. k \<in> set money_fields \<Longrightarrow>
      currency_field (body_with ref (JNum r)) k = Inr (Finite 0)"
    by (simp add: currency_field_def subscript_body_with_field process_currency_number)
  then have "map (currency_field (body_with ref (JNum r))) money_fields
      = map (\<lambda>k. Inr (Finite 0)) money_fields"
    by (simp cong: map_cong)
  then show ?thesis
    by (simp add: money_fields_def eval_nat_numeral)
qed

lemma add_example:
  "add_financial_data uid (body_with ''01/2024'' (JNum 0)) []
     = ((Message StatusSuccess Added, 200), [snapshot uid ''01/2024'' 0 0])"
proof -
  have "new_FinancialData uid ''01/2024'' (replicate 11 (Finite 0))
          = Some (snapshot uid ''01/2024'' 0 0)"
    by (simp add: new_FinancialData_def eval_nat_numeral snapshot_def
          normalize_date_canonical [OF canonical_01_2024])
  then show ?thesis
    by (simp add: add_financial_data_def subscript_body_with_ref normalize_01_2024
          validate_01_2024 query_first_def amounts_body_with)
qed

lemma duplicate_after_create:
  assumes s1: "subscript data1 ''reference_date'' = Inr (JStr ''01/2024'')"
    and s2: "subscript data2 ''reference_date'' = Inr (JStr ''1/2024'')"
    and a1: "add_financial_data uid data1 rows = ((Message StatusSuccess Added, 200), rows1)"
  shows "add_financial_data uid data2 rows1 = ((Message StatusError AlreadyRegistered, 400), rows1)"
proof -
  from a1 have ok: "fst (add_financial_data uid data1 rows) = (Message StatusSuccess Added, 200)"
    and r1: "snd (add_financial_data uid data1 rows) = rows1"
    by simp_all
  from add_success [OF s1 ok] obtain amounts row where
    n: "new_FinancialData uid ''01/2024'' amounts = Some row" and r: "rows1 = rows @ [row]"
    using r1 by (auto simp: normalize_01_2024)
  from new_FinancialData_key [OF n]
  have "matches uid ''01/2024'' row"
    by (simp add: matches_def normalize_date_canonical [OF canonical_01_2024])
  then have "query_first uid ''01/2024'' rows1 \<noteq> None"
    by (auto simp: query_first_None r)
  then obtain existing where "query_first uid ''01/2024'' rows1 = Some existing"
    by blast
  then show ?thesis
    by (simp add: add_financial_data_def s2 normalize_1_2024 validate_01_2024)
qed

text \<open>
  Claim C6. Every table reached from the empty one by create, update and delete requests
  holds at most one row per user and period, and every stored period is canonical; each
  request preserves this. After a successful create for \<^verbatim>\<open>01/2024\<close>, a create for
  \<^verbatim>\<open>1/2024\<close> by the same user is answered with the duplicate-period error (HTTP 400) and
  leaves the table as it was.
\<close>

theorem one_snapshot_per_period:
  "store_invariant (run reqs [])
   \<and> (store_invariant rows \<longrightarrow> store_invariant (snd (handle r rows)))
   \<and> (subscript data1 ''reference_date'' = Inr (JStr ''01/2024'')
      \<and> subscript data2 ''reference_date'' = Inr (JStr ''1/2024'')
      \<and> add_financial_data uid data1 rows = ((Message StatusSuccess Added, 200), rows1)
      \<longrightarrow> add_financial_data uid data2 rows1
            = ((Message StatusError AlreadyRegistered, 400), rows1))"
  using run_preserves [OF store_invariant_empty] handle_preserves duplicate_after_create
  by blast

theorem one_snapshot_per_period_witness:
  "subscript (body_with ''01/2024'' (JNum 0)) ''reference_date'' = Inr (JStr ''01/2024'')
   \<and> subscript (body_with ''1/2024'' (JNum 0)) ''reference_date'' = Inr (JStr ''1/2024'')
   \<and> add_financial_data 1 (body_with ''01/2024'' (JNum 0)) []
       = ((Message StatusSuccess Added, 200), [snapshot 1 ''01/2024'' 0 0])
   \<and> add_financial_data 1 (body_with ''1/2024'' (JNum 0)) [snapshot 1 ''01/2024'' 0 0]
       = ((Message StatusError AlreadyRegistered, 400), [snapshot 1 ''01/2024'' 0 0])
   \<and> store_invariant []
   \<and> store_invariant (snd (handle (Add 1 (body_with ''01/2024'' (JNum 0))) []))
   \<and> store_invariant
        (run [Add 1 (body_with ''01/2024'' (JNum 0)), Add 1 (body_with ''1/2024'' (JNum 0))] [])"
  using one_snapshot_per_period
    [of "[Add 1 (body_with ''01/2024'' (JNum 0)), Add 1 (body_with ''1/2024'' (JNum 0))]"
        "[]" "Add 1 (body_with ''01/2024'' (JNum 0))"
        "body_with ''01/2024'' (JNum 0)" "body_with ''1/2024'' (JNum 0)" 1
        "[snapshot 1 ''01/2024'' 0 0]"]
  by (simp add: subscript_body_with_ref add_example store_invariant_empty)

section \<open>Formatting and parsing amounts\<close>

lemma py_replace_char: "py_replace [a] [b] s = map (\<lambda>c. if c = a then b else c) s"
  by (induction s) auto

lemma py_replace_char_del: "py_replace [a] [] s = filter (\<lambda>c. c \<noteq> a) s"
  by (induction s) auto

lemma py_replace_absent: "a \<notin> set s \<Longrightarrow> py_replace (a # old) new s = s"
  by (induction s) auto

lemma py_replace_currency_prefix:
  "CHR ''R'' \<notin> set s \<Longrightarrow> py_replace ''R$'' [] (''R$ '' @ s) = CHR '' '' # s"
  by (simp add: py_replace_absent)

lemma strip_with_id:
  assumes "s \<noteq> []" "\<not> sp (hd s)" "\<not> sp (last s)"
  shows "strip_with sp s = s"
proof -
  have "dropWhile sp s = s" using assms(1,2) by (cases s) auto
  moreover have "dropWhile sp (rev s) = rev s"
    using assms(1,3) by (cases "rev s") (auto simp: last_rev [symmetric] simp del: last_rev)
  ultimately show ?thesis by (simp add: strip_with_def)
qed

lemma strip_with_lead:
  assumes "sp c" "s \<noteq> []" "\<not> sp (hd s)" "\<not> sp (last s)"
  shows "strip_with sp (c # s) = s"
proof -
  have "dropWhile sp (c # s) = dropWhile sp s" using assms(1) by simp
  then have "strip_with sp (c # s) = strip_with sp s" by (simp add: strip_with_def)
  then show ?thesis using strip_with_id [OF assms(2-4)] by simp
qed

lemma nat_of_digits_snoc: "nat_of_digits (ds @ [c]) = 10 * nat_of_digits ds + digit_val c"
  by (simp add: nat_of_digits_def)

lemma dec_digits: "list_all is_digit (dec n)"
proof (induction n rule: dec.induct)
  case (1 n)
  show ?case
  proof (cases "n < 10")
    case True
    then show ?thesis by (simp add: dec_small is_digit_digit_char)
  next
    case False
    then have "list_all is_digit (dec (n div 10))" using "1.IH" by simp
    moreover have "is_digit (digit_char (n mod 10))" by (simp add: is_digit_digit_char)
    ultimately show ?thesis using False by (simp add: dec_large)
  qed
qed

lemma dec_nonempty: "dec n \<noteq> []"
  by (cases "n < 10") (simp_all add: dec_small dec_large)

lemma nat_of_digits_dec: "nat_of_digits (dec n) = n"
proof (induction n rule: dec.induct)
  case (1 n)
  show ?case
  proof (cases "n < 10")
    case True
    then show ?thesis
      by (simp add: dec_small nat_of_digits_def digit_val_digit_char)
  next
    case False
    then have "nat_of_digits (dec (n div 10)) = n div 10" using "1.IH" by simp
    then show ?thesis
      using False by (simp add: dec_large nat_of_digits_snoc digit_val_digit_char)
  qed
qed

lemma two_digits_digits: "f < 100 \<Longrightarrow> list_all is_digit (two_digits f)"
  by (simp add: two_digits_def is_digit_digit_char less_mult_imp_div_less)

lemma nat_of_digits_two:
  assumes "f < 100"
  shows "nat_of_digits (ds @ two_digits f) = 100 * nat_of_digits ds + f"
proof -
  have "f div 10 < 10" using assms by (simp add: less_mult_imp_div_less)
  then have "nat_of_digits (ds @ two_digits f)
      = 10 * (10 * nat_of_digits ds + f div 10) + f mod 10"
    using nat_of_digits_snoc [of "ds @ [digit_char (f div 10)]" "digit_char (f mod 10)"]
      nat_of_digits_snoc [of ds "digit_char (f div 10)"]
    by (simp add: two_digits_def digit_val_digit_char)
  then show ?thesis by simp
qed

lemma group3_filter:
  "filter (\<lambda>c. c \<noteq> CHR '','') (group3 ds) = filter (\<lambda>c. c \<noteq> CHR '','') ds"
proof (induction ds rule: group3.induct)
  case (1 ds)
  show ?case
  proof (cases "length ds \<le> 3")
    case True
    then show ?thesis by (simp add: group3_short)
  next
    case False
    then have ih: "filter (\<lambda>c. c \<noteq> CHR '','') (group3 (take (length ds - 3) ds))
        = filter (\<lambda>c. c \<noteq> CHR '','') (take (length ds - 3) ds)"
      using "1.IH" by simp
    have "filter (\<lambda>c. c \<noteq> CHR '','') (group3 ds)
        = filter (\<lambda>c. c \<noteq> CHR '','') (take (length ds - 3) ds)
          @ filter (\<lambda>c. c \<noteq> CHR '','') (drop (length ds - 3) ds)"
      using False by (simp add: group3_long ih)
    also have "\<dots> = filter (\<lambda>c. c \<noteq> CHR '','') ds"
      by (metis filter_append append_take_drop_id)
    finally show ?thesis .
  qed
qed

lemma group3_set: "set (group3 ds) \<subseteq> insert (CHR '','') (set ds)"
proof (induction ds rule: group3.induct)
  case (1 ds)
  show ?case
  proof (cases "length ds \<le> 3")
    case True
    then show ?thesis by (auto simp: group3_short)
  next
    case False
    then have "set (group3 (take (length ds - 3) ds))
        \<subseteq> insert (CHR '','') (set (take (length ds - 3) ds))"
      using "1.IH" by simp
    then show ?thesis
      using False set_take_subset [of "length ds - 3" ds] set_drop_subset [of "length ds - 3" ds]
      by (auto simp: group3_long)
  qed
qed

lemma is_digit_plain:
  assumes "is_digit c"
  shows "c \<noteq> CHR '',''" "c \<noteq> CHR ''.''" "c \<noteq> CHR ''_''" "c \<noteq> CHR ''R''" "c \<noteq> CHR ''-''"
    "c \<noteq> CHR ''+''" "\<not> py_isspace c" "\<not> c_isspace c" "swap_char c = c"
    "c \<noteq> CHR ''i''" "c \<noteq> CHR ''I''" "c \<noteq> CHR ''n''" "c \<noteq> CHR ''N''"
  using is_digit_cases [OF assms]
  by (auto simp: py_isspace_def c_isspace_def swap_char_def)

lemma digits_set: "list_all is_digit ds \<Longrightarrow> c \<in> set ds \<Longrightarrow> is_digit c"
  by (simp add: list_all_iff)

lemma map_swap_digits: "list_all is_digit ds \<Longrightarrow> map swap_char ds = ds"
  by (rule map_idI) (simp add: digits_set is_digit_plain)

lemma filter_digits:
  "list_all is_digit ds \<Longrightarrow> a \<in> {CHR '','', CHR ''.''} \<Longrightarrow> filter (\<lambda>c. c \<noteq> a) ds = ds"
  by (rule filter_True) (auto dest: digits_set is_digit_plain)

lemma swap_separators_map:
  assumes "CHR ''_'' \<notin> set s"
  shows "swap_separators s = map swap_char s"
proof -
  have "swap_separators s =
      map ((\<lambda>c. if c = CHR ''_'' then CHR ''.'' else c)
           \<circ> (\<lambda>c. if c = CHR ''.'' then CHR '','' else c)
           \<circ> (\<lambda>c. if c = CHR '','' then CHR ''_'' else c)) s"
    by (simp add: swap_separators_def py_replace_char)
  also have "\<dots> = map swap_char s"
    using assms by (intro map_cong) (auto simp: swap_char_def)
  finally show ?thesis .
qed

lemma group3_chars:
  assumes "list_all is_digit ds" "c \<in> set (group3 ds)"
  shows "c = CHR '','' \<or> is_digit c"
  using assms group3_set [of ds] by (auto dest: digits_set)

lemma unswap_group3:
  assumes "list_all is_digit ds"
  shows "filter (\<lambda>c. c \<noteq> CHR ''.'') (map swap_char (group3 ds)) = ds"
proof -
  have "(\<lambda>c. c \<noteq> CHR ''.'') \<circ> swap_char = (\<lambda>c. c \<noteq> CHR '','')"
    by (auto simp: swap_char_def fun_eq_iff)
  then have "filter (\<lambda>c. c \<noteq> CHR ''.'') (map swap_char (group3 ds))
      = map swap_char (filter (\<lambda>c. c \<noteq> CHR '','') (group3 ds))"
    by (simp add: filter_map)
  also have "\<dots> = map swap_char (filter (\<lambda>c. c \<noteq> CHR '','') ds)"
    by (simp add: group3_filter)
  also have "\<dots> = ds"
    using assms by (simp add: filter_digits map_swap_digits)
  finally show ?thesis .
qed

lemma swapped_group3_chars:
  assumes "list_all is_digit ds" "c \<in> set (map swap_char (group3 ds))"
  shows "c = CHR ''.'' \<or> is_digit c"
proof -
  from assms(2) obtain d where d: "d \<in> set (group3 ds)" "c = swap_char d" by auto
  from group3_chars [OF assms(1) d(1)] show ?thesis
    using d(2) by (auto simp: is_digit_plain) (simp add: swap_char_def)
qed

lemma format_text:
  assumes ds: "list_all is_digit ds" and ff: "list_all is_digit ff"
    and sg: "sg = [] \<or> sg = ''-''"
  shows "swap_separators (''R$ '' @ sg @ group3 ds @ ''.'' @ ff)
           = ''R$ '' @ sg @ map swap_char (group3 ds) @ '','' @ ff"
proof -
  have "CHR ''_'' \<notin> set (''R$ '' @ sg @ group3 ds @ ''.'' @ ff)"
    using sg group3_chars [OF ds] digits_set [OF ff] is_digit_plain(3) by auto
  then have "swap_separators (''R$ '' @ sg @ group3 ds @ ''.'' @ ff)
      = map swap_char (''R$ '' @ sg @ group3 ds @ ''.'' @ ff)"
    by (rule swap_separators_map)
  also have "\<dots> = ''R$ '' @ map swap_char sg @ map swap_char (group3 ds) @ '','' @ map swap_char ff"
    by (simp add: swap_char_def)
  also have "map swap_char sg = sg" using sg by (auto simp: swap_char_def)
  also have "map swap_char ff = ff" by (rule map_swap_digits [OF ff])
  finally show ?thesis .
qed

lemma clean_text:
  assumes ds: "list_all is_digit ds" "ds \<noteq> []" and ff: "list_all is_digit ff" "ff \<noteq> []"
    and sg: "sg = [] \<or> sg = ''-''"
  shows "py_strip (py_replace '','' ''.'' (py_replace ''.'' []
           (py_replace ''R$'' [] (''R$ '' @ sg @ map swap_char (group3 ds) @ '','' @ ff))))
         = sg @ ds @ ''.'' @ ff"
proof -
  have noR: "CHR ''R'' \<notin> set (sg @ map swap_char (group3 ds) @ '','' @ ff)"
    using sg swapped_group3_chars [OF ds(1)] digits_set [OF ff(1)] is_digit_plain(4) by auto
  have s1: "py_replace ''R$'' [] (''R$ '' @ sg @ map swap_char (group3 ds) @ '','' @ ff)
      = CHR '' '' # sg @ map swap_char (group3 ds) @ '','' @ ff"
    by (rule py_replace_currency_prefix [OF noR])
  have fsg: "filter (\<lambda>c. c \<noteq> CHR ''.'') sg = sg" using sg by auto
  have s2: "py_replace ''.'' [] (CHR '' '' # sg @ map swap_char (group3 ds) @ '','' @ ff)
      = CHR '' '' # sg @ ds @ '','' @ ff"
    using fsg by (simp add: py_replace_char_del unswap_group3 [OF ds(1)] filter_digits [OF ff(1)])
  have msg: "map (\<lambda>c. if c = CHR '','' then CHR ''.'' else c) sg = sg" using sg by auto
  have mdig: "\<And>xs. list_all is_digit xs \<Longrightarrow>
      map (\<lambda>c. if c = CHR '','' then CHR ''.'' else c) xs = xs"
    by (rule map_idI) (auto dest: digits_set is_digit_plain)
  have s3: "py_replace '','' ''.'' (CHR '' '' # sg @ ds @ '','' @ ff)
      = CHR '' '' # sg @ ds @ ''.'' @ ff"
    using msg by (simp add: py_replace_char mdig [OF ds(1)] mdig [OF ff(1)])
  have minus: "\<not> py_isspace (CHR ''-'')" by (simp add: py_isspace_def)
  have hd_ok: "\<not> py_isspace (hd (sg @ ds @ ''.'' @ ff))"
    using sg ds minus by (cases ds) (auto simp: is_digit_plain)
  have last_ok: "\<not> py_isspace (last (sg @ ds @ ''.'' @ ff))"
    using ff by (simp add: is_digit_plain digits_set)
  have "py_strip (CHR '' '' # sg @ ds @ ''.'' @ ff) = sg @ ds @ ''.'' @ ff"
    unfolding py_strip_def
    by (rule strip_with_lead) (use hd_ok last_ok in \<open>simp_all add: py_isspace_def\<close>)
  then show ?thesis by (simp only: s1 s2 s3)
qed

lemma scale10_neg: "scale10 x (- int k) = x / 10 ^ k"
  by (cases "k = 0") (simp_all add: scale10_def)

lemma not_literal:
  assumes "is_digit d"
  shows "\<not> ci_eq (d # r) ''inf'' ''INF''" "\<not> ci_eq (d # r) ''infinity'' ''INFINITY''"
    "\<not> ci_eq (d # r) ''nan'' ''NAN''"
  using is_digit_plain [OF assms] by (simp_all add: ci_eq_def)

lemma mantissa_split:
  assumes ds: "list_all is_digit ds" and ff: "list_all is_digit ff"
  shows "takeWhile is_digit (ds @ CHR ''.'' # ff) = ds"
    and "dropWhile is_digit (ds @ CHR ''.'' # ff) = CHR ''.'' # ff"
    and "takeWhile is_digit ff = ff" and "dropWhile is_digit ff = []"
proof -
  have d: "\<And>x. x \<in> set ds \<Longrightarrow> is_digit x" using ds by (simp add: list_all_iff)
  have f: "\<And>x. x \<in> set ff \<Longrightarrow> is_digit x" using ff by (simp add: list_all_iff)
  have p: "\<not> is_digit (CHR ''.'')" by (simp add: is_digit_def)
  show "takeWhile is_digit (ds @ CHR ''.'' # ff) = ds"
    using d p by (simp add: takeWhile_append2)
  show "dropWhile is_digit (ds @ CHR ''.'' # ff) = CHR ''.'' # ff"
    using d p by (simp add: dropWhile_append2)
  show "takeWhile is_digit ff = ff" using f by (simp add: takeWhile_eq_all_conv)
  show "dropWhile is_digit ff = []" using f by simp
qed

lemma parse_mantissa:
  assumes ds: "list_all is_digit ds" "ds \<noteq> []" and ff: "list_all is_digit ff" "ff \<noteq> []"
  shows "(let ip = takeWhile is_digit (ds @ CHR ''.'' # ff);
              r1 = dropWhile is_digit (ds @ CHR ''.'' # ff);
              (fp, r2) =
                (case r1 of
                   [] \<Rightarrow> ([], [])
                 | c # cs \<Rightarrow>
                     if c = CHR ''.'' then (takeWhile is_digit cs, dropWhile is_digit cs)
                     else ([], r1))
          in if ip = [] \<and> fp = [] then Inl ValueError
             else (case exponent_part r2 of
                     None \<Rightarrow> Inl ValueError
                   | Some e \<Rightarrow>
                       Inr (Finite
                         (sv * scale10 (of_nat (nat_of_digits (ip @ fp))) (e - int (length fp))))))
         = Inr (Finite (sv * (of_nat (nat_of_digits (ds @ ff)) / 10 ^ length ff)))"
  using ff(2)
  by (simp add: mantissa_split [OF ds(1) ff(1)] exponent_part_def scale10_neg)

lemma parse_unsigned:
  assumes ds: "list_all is_digit ds" "ds \<noteq> []" and ff: "list_all is_digit ff" "ff \<noteq> []"
  shows "parse_float (ds @ CHR ''.'' # ff)
           = Inr (Finite (of_nat (nat_of_digits (ds @ ff)) / 10 ^ length ff))"
proof -
  from ds obtain d ds' where c: "ds = d # ds'" and d: "is_digit d"
    by (cases ds) auto
  have sign: "d \<noteq> CHR ''-''" "d \<noteq> CHR ''+''" using is_digit_plain [OF d] by simp_all
  have lit: "\<not> ci_eq (ds @ CHR ''.'' # ff) ''inf'' ''INF''"
    "\<not> ci_eq (ds @ CHR ''.'' # ff) ''infinity'' ''INFINITY''"
    "\<not> ci_eq (ds @ CHR ''.'' # ff) ''nan'' ''NAN''"
    using not_literal [OF d] by (simp_all add: c)
  have first: "(case ds @ CHR ''.'' # ff of
                  [] \<Rightarrow> (False, [])
                | c # cs \<Rightarrow> if c = CHR ''-'' then (True, cs)
                            else if c = CHR ''+'' then (False, cs)
                            else (False, ds @ CHR ''.'' # ff)) = (False, ds @ CHR ''.'' # ff)"
    using sign by (simp add: c)
  show ?thesis
    unfolding parse_float_def first
    using parse_mantissa [OF ds ff, of 1] by (simp add: lit)
qed

lemma parse_negative:
  assumes ds: "list_all is_digit ds" "ds \<noteq> []" and ff: "list_all is_digit ff" "ff \<noteq> []"
  shows "parse_float (CHR ''-'' # ds @ CHR ''.'' # ff)
           = Inr (Finite (- (of_nat (nat_of_digits (ds @ ff)) / 10 ^ length ff)))"
proof -
  from ds obtain d ds' where c: "ds = d # ds'" and d: "is_digit d"
    by (cases ds) auto
  have lit: "\<not> ci_eq (ds @ CHR ''.'' # ff) ''inf'' ''INF''"
    "\<not> ci_eq (ds @ CHR ''.'' # ff) ''infinity'' ''INFINITY''"
    "\<not> ci_eq (ds @ CHR ''.'' # ff) ''nan'' ''NAN''"
    using not_literal [OF d] by (simp_all add: c)
  have first: "(case CHR ''-'' # ds @ CHR ''.'' # ff of
                  [] \<Rightarrow> (False, [])
                | c # cs \<Rightarrow> if c = CHR ''-'' then (True, cs)
                            else if c = CHR ''+'' then (False, cs)
                            else (False, CHR ''-'' # ds @ CHR ''.'' # ff))
               = (True, ds @ CHR ''.'' # ff)"
    by simp
  show ?thesis
    unfolding parse_float_def first
    using parse_mantissa [OF ds ff, of "- 1"] by (simp add: lit)
qed

lemma py_float_str_decimal:
  assumes ds: "list_all is_digit ds" "ds \<noteq> []" and ff: "list_all is_digit ff" "ff \<noteq> []"
    and sg: "sg = [] \<or> sg = ''-''"
  shows "py_float_str (sg @ ds @ ''.'' @ ff)
           = Inr (Finite ((if sg = [] then 1 else - 1)
                          * (of_nat (nat_of_digits (ds @ ff)) / 10 ^ length ff)))"
proof -
  have minus: "\<not> c_isspace (CHR ''-'')" by (simp add: c_isspace_def)
  have hd_ok: "\<not> c_isspace (hd (sg @ ds @ ''.'' @ ff))"
    using sg ds minus by (cases ds) (auto simp: is_digit_plain)
  have last_ok: "\<not> c_isspace (last (sg @ ds @ ''.'' @ ff))"
    using ff by (simp add: is_digit_plain digits_set)
  have st: "strip_with c_isspace (sg @ ds @ ''.'' @ ff) = sg @ ds @ ''.'' @ ff"
    by (rule strip_with_id) (use hd_ok last_ok in simp_all)
  have us: "CHR ''_'' \<notin> set (sg @ ds @ ''.'' @ ff)"
    using sg digits_set [OF ds(1)] digits_set [OF ff(1)] is_digit_plain(3) by auto
  have "py_float_str (sg @ ds @ ''.'' @ ff) = parse_float (sg @ ds @ ''.'' @ ff)"
    unfolding py_float_str_def st using us by (simp add: Let_def)
  then show ?thesis
    using sg parse_unsigned [OF ds ff] parse_negative [OF ds ff] by auto
qed

lemma round_half_even_of_int: "round_half_even (of_int k) = k"
  by (simp add: round_half_even_def quotient_of_int)

lemma cents_of_amount: "nat (round_half_even (\<bar>of_int c / 100\<bar> * 100)) = nat \<bar>c\<bar>"
proof -
  have "\<bar>of_int c / 100\<bar> * 100 = (of_int \<bar>c\<bar> :: rat)" by simp
  then show ?thesis by (simp only: round_half_even_of_int)
qed

lemma format_f2_amount:
  "format_f2 False True (Finite (of_int c / 100))
     = (if c < 0 then ''-'' else []) @ group3 (dec (nat \<bar>c\<bar> div 100))
       @ ''.'' @ two_digits (nat \<bar>c\<bar> mod 100)"
proof -
  have "(of_int c / 100 < (0::rat)) = (c < 0)" by (simp add: divide_less_0_iff)
  then show ?thesis
    unfolding format_f2_def by (simp add: Let_def cents_of_amount del: abs_divide)
qed

lemma format_currency_amount:
  "format_currency (Finite (of_int c / 100))
     = ''R$ '' @ (if c < 0 then ''-'' else []) @ map swap_char (group3 (dec (nat \<bar>c\<bar> div 100)))
       @ '','' @ two_digits (nat \<bar>c\<bar> mod 100)"
  unfolding format_currency_def format_f2_amount
  by (rule format_text) (simp_all add: dec_digits two_digits_digits)

lemma amount_value:
  "(if c < 0 then - 1 else 1) * (of_nat (nat \<bar>c\<bar>) / 100) = (of_int c / 100 :: rat)"
  by simp

lemma process_currency_format:
  "process_currency (JStr (format_currency (Finite (of_int c / 100)))) = Inr (Finite (of_int c / 100))"
proof -
  define n where "n = nat \<bar>c\<bar>"
  define sg where "sg = (if c < 0 then ''-'' else [])"
  have sg: "sg = [] \<or> sg = ''-''" by (simp add: sg_def)
  have f: "n mod 100 < 100" by simp
  have ds: "list_all is_digit (dec (n div 100))" "dec (n div 100) \<noteq> []"
    by (simp_all add: dec_digits dec_nonempty)
  have ff: "list_all is_digit (two_digits (n mod 100))" "two_digits (n mod 100) \<noteq> []"
    by (simp_all add: two_digits_digits) (simp add: two_digits_def)
  have fc: "format_currency (Finite (of_int c / 100))
      = ''R$ '' @ sg @ map swap_char (group3 (dec (n div 100))) @ '','' @ two_digits (n mod 100)"
    by (simp only: format_currency_amount n_def sg_def)
  have "process_currency_try (JStr (format_currency (Finite (of_int c / 100))))
      = py_float_str (sg @ dec (n div 100) @ ''.'' @ two_digits (n mod 100))"
    unfolding process_currency_try_def fc
    by (simp only: json.case clean_text [OF ds ff sg])
  also have "\<dots> = Inr (Finite ((if sg = [] then 1 else - 1)
        * (of_nat (nat_of_digits (dec (n div 100) @ two_digits (n mod 100)))
           / 10 ^ length (two_digits (n mod 100)))))"
    by (rule py_float_str_decimal [OF ds ff sg])
  also have "nat_of_digits (dec (n div 100) @ two_digits (n mod 100)) = n"
    by (simp add: nat_of_digits_two [OF f] nat_of_digits_dec)
  also have "length (two_digits (n mod 100)) = 2" by (simp add: two_digits_def)
  also have "(if sg = [] then 1 else - 1) * (of_nat n / 10 ^ 2) = (of_int c / 100 :: rat)"
    using amount_value [of c] by (simp add: sg_def n_def)
  finally show ?thesis by (simp add: process_currency_def)
qed

lemma format_example: "format_currency (Finite 1234.5) = ''R$ 1.234,50''"
proof -
  have "format_f2 False True (Finite 1234.5) = ''1,234.50''"
    by (simp add: eval_format)
  then show ?thesis
    unfolding format_currency_def swap_separators_def by simp
qed

lemma parse_example: "process_currency (JStr ''R$ 1.234,50'') = Inr (Finite 1234.5)"
proof -
  have "Finite 1234.5 = Finite (of_int 123450 / 100)" by simp
  then show ?thesis
    using process_currency_format [of 123450] format_example by simp
qed

section \<open>The currency round trip\<close>


subsection \<open>What a create stores\<close>

lemma sequence_exc_nth:
  "sequence_exc xs = Inr vs \<Longrightarrow>
   length vs = length xs \<and> (\<forall>i < length xs. xs ! i = Inr (vs ! i))"
proof (induction xs arbitrary: vs)
  case Nil
  then show ?case by simp
next
  case (Cons x xs)
  then obtain v ws where x: "x = Inr v" and ws: "sequence_exc xs = Inr ws" and vs: "vs = v # ws"
    by (auto split: sum.splits)
  from Cons.IH [OF ws] show ?case
    by (auto simp: x vs nth_Cons split: nat.splits)
qed

lemma add_success_body:
  assumes "add_financial_data uid data rows = ((Message StatusSuccess Added, 200), rows')"
  shows "\<exists>raw. subscript data ''reference_date'' = Inr (JStr raw)"
  using assms
  by (auto simp: add_financial_data_def split: option.splits sum.splits if_splits json.splits)

lemma add_stores:
  assumes ok: "add_financial_data uid data rows = ((Message StatusSuccess Added, 200), rows')"
  shows "\<exists>row. rows' = rows @ [row]
           \<and> (\<forall>i < length money_fields.
                 currency_field data (money_fields ! i) = Inr (amounts_of row ! i))"
proof -
  from add_success_body [OF ok] obtain raw
    where sub: "subscript data ''reference_date'' = Inr (JStr raw)" by blast
  from ok have f: "fst (add_financial_data uid data rows) = (Message StatusSuccess Added, 200)"
    and s: "snd (add_financial_data uid data rows) = rows'" by simp_all
  from add_success [OF sub f] obtain ref amounts row where
    sq: "sequence_exc (map (currency_field data) money_fields) = Inr amounts"
    and n: "new_FinancialData uid ref amounts = Some row"
    and r: "rows' = rows @ [row]"
    using s by auto
  from new_FinancialData_key [OF n] have a: "amounts_of row = amounts" by simp
  from sequence_exc_nth [OF sq]
  have "\<forall>i < length money_fields. currency_field data (money_fields ! i) = Inr (amounts ! i)"
    by simp
  with a r show ?thesis by simp
qed

text \<open>
  Claim C2, as amended. When a create succeeds, a monetary field supplied as the
  formatted currency text of a two-decimal amount is stored as that amount, and a field
  supplied as a raw JSON number is stored as 0.0, whatever the number.
\<close>

theorem create_stores_text_amounts:
  assumes "add_financial_data uid data rows = ((Message StatusSuccess Added, 200), rows')"
  shows "\<exists>row. rows' = rows @ [row]
           \<and> (\<forall>i < length money_fields.
                 (\<forall>c. subscript data (money_fields ! i)
                        = Inr (JStr (format_currency (Finite (of_int c / 100))))
                      \<longrightarrow> amounts_of row ! i = Finite (of_int c / 100))
                 \<and> (\<forall>r. subscript data (money_fields ! i) = Inr (JNum r)
                      \<longrightarrow> amounts_of row ! i = Finite 0))"
proof -
  from add_stores [OF assms] obtain row where r: "rows' = rows @ [row]"
    and a: "\<forall>i < length money_fields.
              currency_field data (money_fields ! i) = Inr (amounts_of row ! i)"
    by blast
  have "\<forall>i < length money_fields.
          (\<forall>c. subscript data (money_fields ! i)
                 = Inr (JStr (format_currency (Finite (of_int c / 100))))
               \<longrightarrow> amounts_of row ! i = Finite (of_int c / 100))
          \<and> (\<forall>r. subscript data (money_fields ! i) = Inr (JNum r)
               \<longrightarrow> amounts_of row ! i = Finite 0)"
  proof (intro allI impI conjI)
    fix i c
    assume i: "i < length money_fields"
      and s: "subscript data (money_fields ! i)
                = Inr (JStr (format_currency (Finite (of_int c / 100))))"
    from a i have "currency_field data (money_fields ! i) = Inr (amounts_of row ! i)" by blast
    then show "amounts_of row ! i = Finite (of_int c / 100)"
      by (simp add: currency_field_def s process_currency_format)
  next
    fix i r
    assume i: "i < length money_fields"
      and s: "subscript data (money_fields ! i) = Inr (JNum r)"
    from a i have "currency_field data (money_fields ! i) = Inr (amounts_of row ! i)" by blast
    then show "amounts_of row ! i = Finite 0"
      by (simp add: currency_field_def s process_currency_number)
  qed
  with r show ?thesis by blast
qed

lemma amounts_body_cash:
  assumes "process_currency v = Inr a"
  shows "sequence_exc (map (currency_field (body_cash ref v n)) money_fields)
           = Inr (a # replicate 10 (Finite 0))"
proof -
  have c: "currency_field (body_cash ref v n) ''cash_balance'' = Inr a"
    using assms by (simp add: currency_field_def body_cash_def dict_get_def money_fields_def)
  have o: "\<And>k. k \<in> set (tl money_fields) \<Longrightarrow>
      currency_field (body_cash ref v n) k = Inr (Finite 0)"
    by (auto simp: currency_field_def body_cash_def dict_get_def money_fields_def
          process_currency_number)
  have "map (currency_field (body_cash ref v n)) money_fields
      = Inr a # map (\<lambda>k. Inr (Finite 0)) (tl money_fields)"
    using c o by (simp add: money_fields_def)
  then show ?thesis
    by (simp add: money_fields_def eval_nat_numeral)
qed

lemma add_example_cash:
  assumes "process_currency v = Inr (Finite a)"
  shows "add_financial_data uid (body_cash ''01/2024'' v n) []
           = ((Message StatusSuccess Added, 200), [snapshot uid ''01/2024'' a 0])"
proof -
  have "new_FinancialData uid ''01/2024'' (Finite a # replicate 10 (Finite 0))
          = Some (snapshot uid ''01/2024'' a 0)"
    by (simp add: new_FinancialData_def eval_nat_numeral snapshot_def
          normalize_date_canonical [OF canonical_01_2024])
  moreover have "subscript (body_cash ''01/2024'' v n) ''reference_date'' = Inr (JStr ''01/2024'')"
    by (simp add: body_cash_def dict_get_def money_fields_def)
  ultimately show ?thesis
    by (simp add: add_financial_data_def normalize_01_2024
          validate_01_2024 query_first_def amounts_body_cash [OF assms])
qed

text \<open>
  Claim C2 as stated fails for a raw number: a create whose cash balance is the JSON
  number 1500 succeeds and stores the cash balance 0.0, because \<^verbatim>\<open>process_currency\<close>
  calls \<^verbatim>\<open>replace\<close> on the number and answers the \<^verbatim>\<open>AttributeError\<close> with 0.0 (lines 157--159).
\<close>

theorem create_raw_number_counterexample:
  "add_financial_data 1 (body_cash ''01/2024'' (JNum 1500) 0) []
     = ((Message StatusSuccess Added, 200), [snapshot 1 ''01/2024'' 0 0])
   \<and> subscript (body_cash ''01/2024'' (JNum 1500) 0) ''cash_balance'' = Inr (JNum 1500)
   \<and> cash_balance (snapshot 1 ''01/2024'' 0 0) = Finite 0
   \<and> cash_balance (snapshot 1 ''01/2024'' 0 0) \<noteq> Finite 1500"
proof -
  have "add_financial_data 1 (body_cash ''01/2024'' (JNum 1500) 0) []
     = ((Message StatusSuccess Added, 200), [snapshot 1 ''01/2024'' 0 0])"
    by (rule add_example_cash [OF process_currency_number])
  moreover have "subscript (body_cash ''01/2024'' (JNum 1500) 0) ''cash_balance''
      = Inr (JNum 1500)"
    by (simp add: body_cash_def dict_get_def money_fields_def)
  moreover have "cash_balance (snapshot 1 ''01/2024'' 0 0) = Finite 0"
    by (simp add: snapshot_def)
  ultimately show ?thesis by simp
qed

theorem create_stores_text_amounts_witness:
  "add_financial_data 1 (body_cash ''01/2024'' (JStr ''R$ 1.234,50'') 7) []
     = ((Message StatusSuccess Added, 200), [snapshot 1 ''01/2024'' 1234.5 0])
   \<and> subscript (body_cash ''01/2024'' (JStr ''R$ 1.234,50'') 7) (money_fields ! 0)
       = Inr (JStr (format_currency (Finite (of_int 123450 / 100))))
   \<and> amounts_of (snapshot 1 ''01/2024'' 1234.5 0) ! 0 = Finite (of_int 123450 / 100)
   \<and> subscript (body_cash ''01/2024'' (JStr ''R$ 1.234,50'') 7) (money_fields ! 1)
       = Inr (JNum 7)
   \<and> amounts_of (snapshot 1 ''01/2024'' 1234.5 0) ! 1 = Finite 0"
proof -
  have h: "add_financial_data 1 (body_cash ''01/2024'' (JStr ''R$ 1.234,50'') 7) []
     = ((Message StatusSuccess Added, 200), [snapshot 1 ''01/2024'' 1234.5 0])"
    by (rule add_example_cash [OF parse_example])
  have e: "format_currency (Finite (of_int 123450 / 100)) = ''R$ 1.234,50''"
    using format_example by simp
  have s0: "subscript (body_cash ''01/2024'' (JStr ''R$ 1.234,50'') 7) (money_fields ! 0)
       = Inr (JStr (format_currency (Finite (of_int 123450 / 100))))"
    unfolding e by (simp add: body_cash_def dict_get_def money_fields_def)
  have s1: "subscript (body_cash ''01/2024'' (JStr ''R$ 1.234,50'') 7) (money_fields ! 1)
       = Inr (JNum 7)"
    by (simp add: body_cash_def dict_get_def money_fields_def)
  from create_stores_text_amounts [OF h] obtain row where
    r: "[snapshot 1 ''01/2024'' 1234.5 0] = [] @ [row]"
    and a: "\<forall>i < length money_fields.
                 (\<forall>c. subscript (body_cash ''01/2024'' (JStr ''R$ 1.234,50'') 7) (money_fields ! i)
                        = Inr (JStr (format_currency (Finite (of_int c / 100))))
                      \<longrightarrow> amounts_of row ! i = Finite (of_int c / 100))
                 \<and> (\<forall>r. subscript (body_cash ''01/2024'' (JStr ''R$ 1.234,50'') 7) (money_fields ! i)
                        = Inr (JNum r)
                      \<longrightarrow> amounts_of row ! i = Finite 0)"
    by blast
  from r have row: "row = snapshot 1 ''01/2024'' 1234.5 0" by simp
  have l: "0 < length money_fields" "1 < length money_fields" by (simp_all add: money_fields_def)
  from a l(1) s0 have "amounts_of row ! 0 = Finite (of_int 123450 / 100)" by blast
  moreover from a l(2) s1 have "amounts_of row ! 1 = Finite 0" by blast
  ultimately show ?thesis using h s0 s1 row by blast
qed

section \<open>The list of periods\<close>















section \<open>Updates with a field that is not a number\<close>

lemma float_fields_fail:
  assumes "py_float v = Inl e"
  shows "sequence_exc (map (float_field (body_with ref v)) money_fields) = Inl e"
proof -
  have "map (float_field (body_with ref v)) money_fields = map (\<lambda>k. Inl e) money_fields"
    using assms by (simp add: float_field_def subscript_body_with_field cong: map_cong)
  then show ?thesis by (simp add: money_fields_def)
qed

lemma reference_date_body_with:
  "dict_get_method (body_with ref v) ''reference_date'' = Inr (JStr ref)"
  by (simp add: body_with_def dict_get_def money_fields_def)

lemma truthy_body_with: "truthy (body_with ref v)"
  by (simp add: body_with_def)

lemma query_first_snapshot:
  "query_first uid ref [snapshot uid ref c s] = Some (snapshot uid ref c s)"
  by (simp add: query_first_def matches_def snapshot_def)

lemma update_conversion_fails:
  assumes "py_float v = Inl e" and "ref \<noteq> []"
  shows "update_financial_data uid (body_with ref v) [snapshot uid ref c s]
           = ((Message StatusError (if e = ValueError \<or> e = KeyError
                                    then ConversionError e else ExcText e),
               if e = ValueError \<or> e = KeyError then 400 else 500),
              [snapshot uid ref c s])"
  using assms
  by (simp add: update_financial_data_def truthy_body_with reference_date_body_with
      query_first_snapshot float_fields_fail)

lemma py_float_abc: "py_float_str ''abc'' = Inl ValueError"
  by (simp add: py_float_str_def strip_with_def c_isspace_def parse_float_def ci_eq_def
      is_digit_def Let_def)

text \<open>
  Claim C8. A field that is text and does not parse as a number is rejected with HTTP
  400 and the row stays as it was; this much is what the claim says. A field that is
  \<^verbatim>\<open>null\<close> is not: \<^verbatim>\<open>float(None)\<close> raises \<^verbatim>\<open>TypeError\<close>, which the handler of line 380
  does not catch, and the request is answered with HTTP 500 by the handler of line 393.
  The row stays as it was in that case too.
\<close>

theorem update_null_field_is_internal_error:
  "update_financial_data 1 (body_with ''01/2024'' JNull) [snapshot 1 ''01/2024'' 1000 0]
     = ((Message StatusError (ExcText TypeError), 500), [snapshot 1 ''01/2024'' 1000 0])
   \<and> update_financial_data 1 (body_with ''01/2024'' (JStr ''abc''))
         [snapshot 1 ''01/2024'' 1000 0]
     = ((Message StatusError (ConversionError ValueError), 400),
        [snapshot 1 ''01/2024'' 1000 0])"
proof -
  have "py_float JNull = Inl TypeError" by simp
  then have
    "update_financial_data 1 (body_with ''01/2024'' JNull) [snapshot 1 ''01/2024'' 1000 0]
       = ((Message StatusError (ExcText TypeError), 500), [snapshot 1 ''01/2024'' 1000 0])"
    by (subst update_conversion_fails [where e = TypeError]) simp_all
  moreover have
    "update_financial_data 1 (body_with ''01/2024'' (JStr ''abc''))
         [snapshot 1 ''01/2024'' 1000 0]
       = ((Message StatusError (ConversionError ValueError), 400),
          [snapshot 1 ''01/2024'' 1000 0])"
    by (subst update_conversion_fails [where e = ValueError]) (simp_all add: py_float_abc)
  ultimately show ?thesis by (rule conjI)
qed

end
